theory Spec2Isabelle
  imports Complex_Main "HOL-Library.Sublist" "HOL-Library.Multiset"
begin

section \<open>Python values carried by the export pipeline of cimexport.py\<close>

text \<open>
  Objects live in a store and are named by their address: Python compares the model
  objects of the registry by identity (the Base class defines no \<open>__eq__\<close>), and the
  rank lists of a possibleProfileList are sorted in place, so both are addressed.
\<close>

type_synonym addr = nat

text \<open>A float: a finite one by its real value (both zeros are 0), or a special value.\<close>

datatype pyfloat = Finite real | PosInf | NegInf | NaN

text \<open>
  A profile designator as the dictionaries hold it: the short code of a profile (a
  \<open>str\<close>, as in readInProfile and activeProfileList) or its priority rank (an
  \<open>int\<close>, as in the lists of possibleProfileList). A \<open>str\<close> never equals an
  \<open>int\<close> in Python.
\<close>

datatype pkey = Name string | Rank int

datatype pyval =
    PNone
  | PBool bool
  | PInt int
  | PFloat pyfloat
  | PStr string
  | PList "pyval list"
  | PObj addr  \<comment> \<open>an instance of a subclass of Base\<close>
  | PReadIn "(string \<times> pkey) list"  \<comment> \<open>a readInProfile dict\<close>
  | PPossible "(string \<times> (string \<times> addr) list) list"
      \<comment> \<open>a possibleProfileList dict: class name, attribute name, the rank list object\<close>
  | POther string nat  \<comment> \<open>any other object, with identity equality: class name, identity\<close>

text \<open>
  What the export reads of a model object: the name of its class, its \<open>mRID\<close>
  attribute when it has one (\<open>hasattr(elem, 'mRID')\<close>), and the attribute map
  \<open>_get_attributes\<close> builds for it. That function walks the class hierarchy of
  the object by reflection (\<open>__bases__\<close>, \<open>__dict__\<close>) over class
  declarations that are not part of this file, so its result is taken as data of the
  object: a dict in insertion order, \<open>readInProfile\<close> and \<open>possibleProfileList\<close>
  first, then one key \<open>Class.attribute\<close> per attribute. The inner dicts of
  \<open>possibleProfileList\<close> are the class attributes themselves (no copy is made), so
  their rank lists are shared by every instance of the class.
\<close>

record model_object =
  class_name :: string
  mRID_attr :: "pyval option"
  attributes_dict :: "(string \<times> pyval) list"

type_synonym obj_heap = "addr \<Rightarrow> model_object"

text \<open>The registry \<open>res\<close>: a dict from identifier to model object, in insertion order.\<close>

type_synonym registry = "(string \<times> addr) list"

datatype py_error =
  TypeError | UnboundLocalError | KeyError | IndexError | ValueError | AttributeError

text \<open>\<open>x.__class__.__name__\<close>\<close>

fun type_name :: "obj_heap \<Rightarrow> pyval \<Rightarrow> string" where
  "type_name H PNone = ''NoneType''"
| "type_name H (PBool b) = ''bool''"
| "type_name H (PInt i) = ''int''"
| "type_name H (PFloat f) = ''float''"
| "type_name H (PStr s) = ''str''"
| "type_name H (PList xs) = ''list''"
| "type_name H (PObj a) = class_name (H a)"
| "type_name H (PReadIn d) = ''dict''"
| "type_name H (PPossible d) = ''dict''"
| "type_name H (POther c i) = c"

subsection \<open>Equality with the literals of the filter lists\<close>

text \<open>
  The literals the source compares attribute values with: \<open>''\<close>, \<open>None\<close>,
  \<open>0.0\<close>, \<open>0\<close>, \<open>'many'\<close>.
\<close>

datatype literal = LStr string | LNone | LFloat real | LInt int

text \<open>
  The number a value stands for in a comparison: \<open>bool\<close> is a subtype of \<open>int\<close>
  (\<open>False == 0\<close>, \<open>True == 1\<close>), and \<open>int\<close> and \<open>float\<close> compare by value.
\<close>

fun num_of :: "pyval \<Rightarrow> real option" where
  "num_of (PBool b) = Some (if b then 1 else 0)"
| "num_of (PInt i) = Some (of_int i)"
| "num_of (PFloat (Finite r)) = Some r"
| "num_of _ = None"

text \<open>\<open>v == lit\<close>\<close>

fun eq_literal :: "pyval \<Rightarrow> literal \<Rightarrow> bool" where
  "eq_literal v (LStr s) = (v = PStr s)"
| "eq_literal v LNone = (v = PNone)"
| "eq_literal v (LFloat r) = (num_of v = Some r)"
| "eq_literal v (LInt i) = (num_of v = Some (of_int i))"

text \<open>\<open>v in [lit, ...]\<close>\<close>

definition py_in :: "pyval \<Rightarrow> literal list \<Rightarrow> bool" where
  "py_in v lits = list_ex (eq_literal v) lits"

section \<open>The reference resolver\<close>

text \<open>
  A record of the resolver's output: \<open>{key: value}\<close> for the two reserved keys,
  \<open>{'value': v, 'attr_name': key}\<close> for an attribute.
\<close>

datatype arecord = MetaRec string pyval | AttrRec string pyval

text \<open>The log, one entry per call of the logger, with the arguments of its format.\<close>

datatype log_event =
    ObjectNotFound string string
      \<comment> \<open>warning: Object of type {} not found as reference for object with UUID {}.\<close>
  | NotSubclass string
      \<comment> \<open>warning: Reference object not subclass of Base class for object with UUID {}.\<close>
  | ClassNotPossible string pkey
      \<comment> \<open>warning: Class {} was read from profile {} but this profile is not possible for this class\<close>
  | ClassNotActive string pkey
      \<comment> \<open>info: Class {} was read from profile {} but this profile is not active for the export.\<close>
  | ClassAllInactive string
      \<comment> \<open>warning: All possible export profiles for class {} not active. Skip class for export.\<close>
  | ClassNoProfile string
      \<comment> \<open>warning: Class {} has no profile to export to.\<close>
  | AttrNotActive string string pkey
      \<comment> \<open>info: Attribute {} from class {} was read from profile {} but this profile is inactive\<close>
  | AttrAllInactive string string string
      \<comment> \<open>warning: All possible export profiles for attribute {}.{} of class {} not active.\<close>
  | AttrNoProfile string string string
      \<comment> \<open>warning: Attribute {}.{} of class {} has no profile to export to.\<close>
  | AttrClassUnknown string string
      \<comment> \<open>warning: The class {} for attribute {} is not in the possibleProfileList\<close>
  | FileExists string
      \<comment> \<open>warning: File {} already exists in path {}.\<close>
  | WriteFile string
      \<comment> \<open>info: Write file "%s"\<close>

text \<open>
  \<open>_search_mRID\<close>: the key of the first entry of the registry whose object is the
  given one, the empty string when there is none.
\<close>

fun search_mRID :: "addr \<Rightarrow> registry \<Rightarrow> string" where
  "search_mRID class_object [] = ''''"
| "search_mRID class_object ((mRID, class_obj) # res) =
     (if class_object = class_obj then mRID else search_mRID class_object res)"

text \<open>\<open>s + v\<close> for a string \<open>s\<close>: TypeError unless \<open>v\<close> is a string.\<close>

fun str_add :: "string \<Rightarrow> pyval \<Rightarrow> py_error + string" where
  "str_add s (PStr t) = Inr (s @ t)"
| "str_add s _ = Inl TypeError"

text \<open>
  The inner loop over the elements of a list-valued attribute (lines 44 to 60). Its state
  is the array of tokens, the log and the loop variable \<open>elem\<close>, which Python leaves
  bound after the loop.
\<close>

fun elem_loop ::
  "obj_heap \<Rightarrow> registry \<Rightarrow> string \<Rightarrow> pyval list \<Rightarrow>
   string list \<times> log_event list \<times> pyval option \<Rightarrow>
   py_error + (string list \<times> log_event list \<times> pyval option)" where
  "elem_loop H res mRID [] st = Inr st"
| "elem_loop H res mRID (e # es) (array, lg, elem) =
     (case e of
        PObj a \<Rightarrow>
          (case mRID_attr (H a) of
             None \<Rightarrow>
               (let UUID = ''%'' @ search_mRID a res;
                    lg' = (if UUID = ''%'' then lg @ [ObjectNotFound (class_name (H a)) mRID]
                           else lg)
                in elem_loop H res mRID es (array @ [UUID], lg', Some e))
           | Some m \<Rightarrow>
               (case str_add ''%'' m of
                  Inl err \<Rightarrow> Inl err
                | Inr UUID \<Rightarrow> elem_loop H res mRID es (array @ [UUID], lg, Some e)))
      | _ \<Rightarrow> elem_loop H res mRID es (array, lg @ [NotSubclass mRID], Some e))"

text \<open>The state of the loop over the attribute map.\<close>

record rstate =
  reference_list :: "arecord list"
  rlog :: "log_event list"
  elem_var :: "pyval option"

text \<open>
  Lines 82 to 91: the record of one attribute is appended unless its value is one of
  the filtered literals; the items of a list value are appended one by one.
\<close>

definition emit :: "string \<Rightarrow> pyval option \<Rightarrow> rstate \<Rightarrow> rstate" where
  "emit key value st =
     (case value of
        None \<Rightarrow> st
      | Some (PList items) \<Rightarrow>
          st\<lparr>reference_list := reference_list st @
               map (AttrRec key)
                 (filter (\<lambda>reference_item.
                    \<not> py_in reference_item [LStr '''', LNone, LFloat 0, LInt 0]) items)\<rparr>
      | Some v \<Rightarrow>
          (if \<not> py_in v [LStr '''', LNone, LFloat 0, LInt 0, LStr ''many'']
           then st\<lparr>reference_list := reference_list st @ [AttrRec key v]\<rparr>
           else st))"

text \<open>
  The body of the loop over the attribute map (lines 37 to 91). In the branch of a single
  model object the warning formats \<open>elem.__class__.__name__\<close>: \<open>elem\<close> is the loop
  variable of the list branch, unbound (UnboundLocalError) when no list element has been
  visited before in this call.
\<close>

definition resolve_attr ::
  "obj_heap \<Rightarrow> registry \<Rightarrow> string \<Rightarrow> string \<times> pyval \<Rightarrow> rstate \<Rightarrow> py_error + rstate" where
  "resolve_attr H res mRID kv st =
     (let key = fst kv; v = snd kv in
      if key \<in> set [''readInProfile'', ''possibleProfileList'']
      then Inr (st\<lparr>reference_list := reference_list st @ [MetaRec key v]\<rparr>)
      else
        (case v of
           PList xs \<Rightarrow>
             (case elem_loop H res mRID xs ([], rlog st, elem_var st) of
                Inl err \<Rightarrow> Inl err
              | Inr (array, lg, elem) \<Rightarrow>
                  Inr (emit key
                        (Some (if length array = 1 then PStr (hd array)
                               else PList (map PStr array)))
                        (st\<lparr>rlog := lg, elem_var := elem\<rparr>)))
         | PObj a \<Rightarrow>
             (case mRID_attr (H a) of
                None \<Rightarrow>
                  (let UUID = ''%'' @ search_mRID a res in
                   if UUID = ''%''
                   then (case elem_var st of
                           None \<Rightarrow> Inl UnboundLocalError
                         | Some elem \<Rightarrow>
                             Inr (emit key (Some (PStr UUID))
                                   (st\<lparr>rlog := rlog st @
                                        [ObjectNotFound (type_name H elem) mRID]\<rparr>)))
                   else Inr (emit key (Some (PStr UUID)) st))
              | Some m \<Rightarrow>
                  (case str_add ''%'' m of
                     Inl err \<Rightarrow> Inl err
                   | Inr UUID \<Rightarrow> Inr (emit key (Some (PStr UUID)) st)))
         | _ \<Rightarrow>
             (if eq_literal v (LStr '''') \<or> v = PNone then Inr (emit key None st)
              else Inr (emit key (Some v) st))))"

fun resolve_loop ::
  "obj_heap \<Rightarrow> registry \<Rightarrow> string \<Rightarrow> (string \<times> pyval) list \<Rightarrow> rstate \<Rightarrow> py_error + rstate" where
  "resolve_loop H res mRID [] st = Inr st"
| "resolve_loop H res mRID (kv # rest) st =
     (case resolve_attr H res mRID kv st of
        Inl err \<Rightarrow> Inl err
      | Inr st' \<Rightarrow> resolve_loop H res mRID rest st')"

text \<open>
  \<open>_get_reference_uuid(attr_dict, version, res, mRID)\<close>. The attribute map is a dict
  in insertion order. \<open>version\<close> only selects the module the Base class is imported
  from.
\<close>

definition get_reference_uuid ::
  "obj_heap \<Rightarrow> (string \<times> pyval) list \<Rightarrow> registry \<Rightarrow> string \<Rightarrow> py_error + rstate" where
  "get_reference_uuid H attr_dict res mRID =
     resolve_loop H res mRID attr_dict
       \<lparr>reference_list = [], rlog = [], elem_var = None\<rparr>"

section \<open>The profile enumeration\<close>

text \<open>
  \<open>cgmesProfile = Enum("cgmesProfile", {"EQ": 0, "SSH": 1, "TP": 2, "SV": 3, "DY": 4,
  "GL": 5, "DI": 6})\<close>
\<close>

datatype cgmesProfile = EQ | SSH | TP | SV | DY | GL | DI

fun profile_value :: "cgmesProfile \<Rightarrow> int" where
  "profile_value EQ = 0"
| "profile_value SSH = 1"
| "profile_value TP = 2"
| "profile_value SV = 3"
| "profile_value DY = 4"
| "profile_value GL = 5"
| "profile_value DI = 6"

fun profile_name :: "cgmesProfile \<Rightarrow> string" where
  "profile_name EQ = ''EQ''"
| "profile_name SSH = ''SSH''"
| "profile_name TP = ''TP''"
| "profile_name SV = ''SV''"
| "profile_name DY = ''DY''"
| "profile_name GL = ''GL''"
| "profile_name DI = ''DI''"

text \<open>\<open>cgmesProfile(v)\<close>: the member of that value, ValueError when there is none.\<close>

definition cgmesProfile_of :: "int \<Rightarrow> py_error + cgmesProfile" where
  "cgmesProfile_of v =
     (if v = 0 then Inr EQ else if v = 1 then Inr SSH else if v = 2 then Inr TP
      else if v = 3 then Inr SV else if v = 4 then Inr DY else if v = 5 then Inr GL
      else if v = 6 then Inr DI else Inl ValueError)"

text \<open>The dict \<open>short_profile_name\<close>, in the order it is written.\<close>

definition short_profile_name :: "(string \<times> string) list" where
  "short_profile_name =
     [(''DiagramLayout'', ''DI''),
      (''Dynamics'', ''DY''),
      (''Equipment'', ''EQ''),
      (''GeographicalLocation'', ''GL''),
      (''StateVariables'', ''SV''),
      (''SteadyStateHypothesis'', ''SSH''),
      (''Topology'', ''TP'')]"

section \<open>Sorting classes and attributes to profiles\<close>

text \<open>
  A class of the resolver's output, and an entry of the export plans:
  \<open>dict(name=..., mRID=..., attributes=...)\<close>.
\<close>

record class_dict =
  name_of :: string
  mRID_of :: string
  attributes_of :: "arecord list"

text \<open>
  What outlives a call, also when it raises: the store of the rank lists (the lists of the
  classes' possibleProfileList, which \<open>.sort()\<close> reorders in place) and the log.
\<close>

record effects =
  lists :: "addr \<Rightarrow> int list"
  logs :: "log_event list"

definition log_event :: "log_event \<Rightarrow> effects \<Rightarrow> effects" where
  "log_event ev eff = eff\<lparr>logs := logs eff @ [ev]\<rparr>"

text \<open>\<open>lst.sort()\<close> on the list object at an address.\<close>

definition sort_in_place :: "addr \<Rightarrow> effects \<Rightarrow> effects" where
  "sort_in_place a eff = eff\<lparr>lists := (lists eff)(a := sort (lists eff a))\<rparr>"

text \<open>
  \<open>if key in d.keys(): d[key].append(x) else: d[key] = [x]\<close>, on a dict in insertion
  order.
\<close>

fun dict_append :: "'k \<Rightarrow> 'v \<Rightarrow> ('k \<times> 'v list) list \<Rightarrow> ('k \<times> 'v list) list" where
  "dict_append k v [] = [(k, [v])]"
| "dict_append k v ((k', vs) # d) =
     (if k = k' then (k', vs @ [v]) # d else (k', vs) # dict_append k v d)"

text \<open>\<open>s.split('.')\<close>\<close>

fun split_dot :: "string \<Rightarrow> string list" where
  "split_dot [] = [[]]"
| "split_dot (c # cs) =
     (if c = CHR ''.'' then [] # split_dot cs
      else (case split_dot cs of [] \<Rightarrow> [[c]] | w # ws \<Rightarrow> (c # w) # ws))"

text \<open>
  The scan of a sorted rank list (lines 186 to 190 and 227 to 231): the short code of the
  first rank whose profile is active, the empty string when the loop ends without one.
  The ranks after the one found are not looked at.
\<close>

fun scan_profiles :: "int list \<Rightarrow> pkey list \<Rightarrow> py_error + pkey" where
  "scan_profiles [] activeProfileList = Inr (Name '''')"
| "scan_profiles (serializationProfile # rest) activeProfileList =
     (case cgmesProfile_of serializationProfile of
        Inl err \<Rightarrow> Inl err
      | Inr p \<Rightarrow>
          (if Name (profile_name p) \<in> set activeProfileList then Inr (Name (profile_name p))
           else scan_profiles rest activeProfileList))"

type_synonym readInProfile = "(string \<times> pkey) list"
type_synonym possibleProfileList = "(string \<times> (string \<times> addr) list) list"

text \<open>
  Lines 163 to 179: the profile the class was read from, when it is active and an
  element of the class's list. \<open>possibleProfileList[klass['name']]['class']\<close> raises
  KeyError when either key is missing.
\<close>

definition class_read_in ::
  "pkey list \<Rightarrow> string \<Rightarrow> readInProfile \<Rightarrow> possibleProfileList \<Rightarrow> effects \<Rightarrow>
   effects \<times> (py_error + pkey)" where
  "class_read_in activeProfileList klass_name readInProfile possibleProfileList eff =
     (case map_of readInProfile ''class'' of
        None \<Rightarrow> (eff, Inr (Name ''''))
      | Some p \<Rightarrow>
          (if p \<in> set activeProfileList then
             (case map_of possibleProfileList klass_name of
                None \<Rightarrow> (eff, Inl KeyError)
              | Some d \<Rightarrow>
                  (case map_of d ''class'' of
                     None \<Rightarrow> (eff, Inl KeyError)
                   | Some a \<Rightarrow>
                       (if p \<in> set (map Rank (lists eff a)) then (eff, Inr p)
                        else (log_event (ClassNotPossible klass_name p) eff,
                              Inr (Name '''')))))
           else (log_event (ClassNotActive klass_name p) eff, Inr (Name ''''))))"

text \<open>
  Lines 181 to 199, entered when no profile has been chosen yet. The result is
  \<open>None\<close> where the source leaves the iteration with \<open>continue\<close>.
\<close>

definition class_default ::
  "pkey list \<Rightarrow> string \<Rightarrow> possibleProfileList \<Rightarrow> effects \<Rightarrow>
   effects \<times> (py_error + pkey option)" where
  "class_default activeProfileList klass_name possibleProfileList eff =
     (case map_of possibleProfileList klass_name of
        None \<Rightarrow> (log_event (ClassNoProfile klass_name) eff, Inr (Some (Name '''')))
      | Some d \<Rightarrow>
          (case map_of d ''class'' of
             None \<Rightarrow> (log_event (ClassNoProfile klass_name) eff, Inr (Some (Name '''')))
           | Some a \<Rightarrow>
               (let eff' = sort_in_place a eff in
                case scan_profiles (lists eff' a) activeProfileList of
                  Inl err \<Rightarrow> (eff', Inl err)
                | Inr p \<Rightarrow>
                    (if p = Name '''' then (log_event (ClassAllInactive klass_name) eff', Inr None)
                     else (eff', Inr (Some p))))))"

text \<open>
  Lines 211 to 243: the profile of one attribute, \<open>None\<close> where the source leaves
  the iteration with \<open>continue\<close>. An attribute whose class or name has no entry in
  possibleProfileList keeps the empty string as its profile.
\<close>

definition attribute_profile ::
  "pkey list \<Rightarrow> string \<Rightarrow> readInProfile \<Rightarrow> possibleProfileList \<Rightarrow> string \<Rightarrow> string \<Rightarrow>
   effects \<Rightarrow> effects \<times> (py_error + pkey option)" where
  "attribute_profile activeProfileList klass_name readInProfile possibleProfileList
       attribute_class attribute_name eff =
     (let (eff1, read_in) =
            (case map_of readInProfile attribute_name of
               None \<Rightarrow> (eff, Name '''')
             | Some p \<Rightarrow>
                 (if p \<in> set activeProfileList then (eff, p)
                  else (log_event (AttrNotActive attribute_name klass_name p) eff, Name '''')))
      in
      if read_in = Name '''' then
        (case map_of possibleProfileList attribute_class of
           None \<Rightarrow>
             (log_event (AttrClassUnknown attribute_class attribute_name) eff1,
              Inr (Some (Name '''')))
         | Some d \<Rightarrow>
             (case map_of d attribute_name of
                None \<Rightarrow>
                  (log_event (AttrNoProfile attribute_class attribute_name klass_name) eff1,
                   Inr (Some (Name '''')))
              | Some a \<Rightarrow>
                  (let eff2 = sort_in_place a eff1 in
                   case scan_profiles (lists eff2 a) activeProfileList of
                     Inl err \<Rightarrow> (eff2, Inl err)
                   | Inr p \<Rightarrow>
                       (if p = Name ''''
                        then (log_event
                                (AttrAllInactive attribute_class attribute_name klass_name) eff2,
                              Inr None)
                        else (eff2, Inr (Some p))))))
      else (eff1, Inr (Some read_in)))"

text \<open>
  The body of the loop over the records of a class (lines 203 to 254). Its state is
  \<open>same_package_list\<close> and \<open>about_dict\<close>. \<open>split('.')[1]\<close> raises IndexError
  when the name has no dot.
\<close>

type_synonym about_dict = "(pkey \<times> arecord list) list"

definition sort_attribute ::
  "pkey list \<Rightarrow> string \<Rightarrow> readInProfile \<Rightarrow> possibleProfileList \<Rightarrow> pkey \<Rightarrow> arecord \<Rightarrow>
   effects \<Rightarrow> arecord list \<times> about_dict \<Rightarrow>
   effects \<times> (py_error + arecord list \<times> about_dict)" where
  "sort_attribute activeProfileList klass_name readInProfile possibleProfileList
       class_serializationProfile attribute eff acc =
     (case attribute of
        MetaRec k v \<Rightarrow> (eff, Inr acc)
      | AttrRec attr_name v \<Rightarrow>
          (case split_dot attr_name of
             attribute_class # attribute_name # _ \<Rightarrow>
               (if attribute_name = ''mRID'' then (eff, Inr acc)
                else
                  (case attribute_profile activeProfileList klass_name readInProfile
                          possibleProfileList attribute_class attribute_name eff of
                     (eff', Inl err) \<Rightarrow> (eff', Inl err)
                   | (eff', Inr None) \<Rightarrow> (eff', Inr acc)
                   | (eff', Inr (Some attribute_serializationProfile)) \<Rightarrow>
                       (if attribute_serializationProfile = class_serializationProfile
                        then (eff', Inr (fst acc @ [attribute], snd acc))
                        else (eff', Inr (fst acc,
                                dict_append attribute_serializationProfile attribute (snd acc))))))
           | _ \<Rightarrow> (eff, Inl IndexError)))"

fun attributes_loop ::
  "pkey list \<Rightarrow> string \<Rightarrow> readInProfile \<Rightarrow> possibleProfileList \<Rightarrow> pkey \<Rightarrow> arecord list \<Rightarrow>
   effects \<Rightarrow> arecord list \<times> about_dict \<Rightarrow>
   effects \<times> (py_error + arecord list \<times> about_dict)" where
  "attributes_loop active kn rip ppl csp [] eff acc = (eff, Inr acc)"
| "attributes_loop active kn rip ppl csp (attribute # rest) eff acc =
     (case sort_attribute active kn rip ppl csp attribute eff acc of
        (eff', Inl err) \<Rightarrow> (eff', Inl err)
      | (eff', Inr acc') \<Rightarrow> attributes_loop active kn rip ppl csp rest eff' acc')"

text \<open>
  Lines 160 and 161: \<open>klass['attributes'][0]['readInProfile']\<close> and
  \<open>klass['attributes'][1]['possibleProfileList']\<close>, IndexError when the list is too
  short and KeyError when the record has no such key. The resolver passes on the two
  dicts the extractor stored; a value of another shape under these keys is outside the
  data model, and the model stops with TypeError there.
\<close>

fun as_readInProfile :: "pyval \<Rightarrow> py_error + readInProfile" where
  "as_readInProfile (PReadIn d) = Inr d"
| "as_readInProfile _ = Inl TypeError"

fun as_possibleProfileList :: "pyval \<Rightarrow> py_error + possibleProfileList" where
  "as_possibleProfileList (PPossible d) = Inr d"
| "as_possibleProfileList _ = Inl TypeError"

fun record_item :: "arecord \<Rightarrow> string \<Rightarrow> py_error + pyval" where
  "record_item (MetaRec k v) key = (if key = k then Inr v else Inl KeyError)"
| "record_item (AttrRec attr_name v) key =
     (if key = ''value'' then Inr v
      else if key = ''attr_name'' then Inr (PStr attr_name)
      else Inl KeyError)"

definition read_metadata ::
  "arecord list \<Rightarrow> py_error + readInProfile \<times> possibleProfileList" where
  "read_metadata attributes =
     (case attributes of
        [] \<Rightarrow> Inl IndexError
      | r0 # rest \<Rightarrow>
          (case record_item r0 ''readInProfile'' of
             Inl err \<Rightarrow> Inl err
           | Inr v0 \<Rightarrow>
               (case rest of
                  [] \<Rightarrow> Inl IndexError
                | r1 # _ \<Rightarrow>
                    (case record_item r1 ''possibleProfileList'' of
                       Inl err \<Rightarrow> Inl err
                     | Inr v1 \<Rightarrow>
                         (case as_readInProfile v0 of
                            Inl err \<Rightarrow> Inl err
                          | Inr readInProfile \<Rightarrow>
                              (case as_possibleProfileList v1 of
                                 Inl err \<Rightarrow> Inl err
                               | Inr possibleProfileList \<Rightarrow>
                                   Inr (readInProfile, possibleProfileList)))))))"

text \<open>
  The body of the loop over the classes (lines 153 to 272). Its state is the two plans,
  \<open>export_dict\<close> and \<open>export_about_dict\<close>: for each key the list under
  \<open>'classes'\<close>.
\<close>

type_synonym plan = "(pkey \<times> class_dict list) list"

definition sort_klass ::
  "pkey list \<Rightarrow> class_dict \<Rightarrow> effects \<Rightarrow> plan \<times> plan \<Rightarrow>
   effects \<times> (py_error + plan \<times> plan)" where
  "sort_klass activeProfileList klass eff plans =
     (case read_metadata (attributes_of klass) of
        Inl err \<Rightarrow> (eff, Inl err)
      | Inr (readInProfile, possibleProfileList) \<Rightarrow>
          (case class_read_in activeProfileList (name_of klass) readInProfile
                  possibleProfileList eff of
             (eff1, Inl err) \<Rightarrow> (eff1, Inl err)
           | (eff1, Inr read_in) \<Rightarrow>
               (case (if read_in = Name ''''
                      then class_default activeProfileList (name_of klass)
                             possibleProfileList eff1
                      else (eff1, Inr (Some read_in))) of
                  (eff2, Inl err) \<Rightarrow> (eff2, Inl err)
                | (eff2, Inr None) \<Rightarrow> (eff2, Inr plans)
                | (eff2, Inr (Some class_serializationProfile)) \<Rightarrow>
                    (case attributes_loop activeProfileList (name_of klass) readInProfile
                            possibleProfileList class_serializationProfile
                            (attributes_of klass) eff2 ([], []) of
                       (eff3, Inl err) \<Rightarrow> (eff3, Inl err)
                     | (eff3, Inr (same_package_list, about_dict)) \<Rightarrow>
                         (eff3,
                          Inr (dict_append class_serializationProfile
                                 \<lparr>name_of = name_of klass, mRID_of = mRID_of klass,
                                  attributes_of = same_package_list\<rparr>
                                 (fst plans),
                               fold (\<lambda>(about_key, about_attributes).
                                       dict_append about_key
                                         \<lparr>name_of = name_of klass, mRID_of = mRID_of klass,
                                          attributes_of = about_attributes\<rparr>)
                                 about_dict (snd plans)))))))"

fun klass_loop ::
  "pkey list \<Rightarrow> class_dict list \<Rightarrow> effects \<Rightarrow> plan \<times> plan \<Rightarrow>
   effects \<times> (py_error + plan \<times> plan)" where
  "klass_loop active [] eff plans = (eff, Inr plans)"
| "klass_loop active (klass # rest) eff plans =
     (case sort_klass active klass eff plans of
        (eff', Inl err) \<Rightarrow> (eff', Inl err)
      | (eff', Inr plans') \<Rightarrow> klass_loop active rest eff' plans')"

text \<open>
  \<open>_sort_classes_to_profile(class_attributes_list, activeProfileList)\<close>: the export
  plan and the about plan, with the rank lists and the log as the call leaves them.
\<close>

definition sort_classes_to_profile ::
  "class_dict list \<Rightarrow> pkey list \<Rightarrow> effects \<Rightarrow> effects \<times> (py_error + plan \<times> plan)" where
  "sort_classes_to_profile class_attributes_list activeProfileList eff =
     klass_loop activeProfileList class_attributes_list eff ([], [])"

section \<open>The export\<close>

text \<open>
  \<open>_get_class_attributes_with_references(res, version)\<close>: one class per entry of the
  registry, in its order, with the records of the resolver; the log entries of the
  resolver calls are collected. A resolver call that raises ends the export; the result
  is then the exception alone, without the log entries written up to it.
\<close>

fun get_class_attributes_with_references ::
  "obj_heap \<Rightarrow> registry \<Rightarrow> registry \<Rightarrow> py_error + class_dict list \<times> log_event list" where
  "get_class_attributes_with_references H res [] = Inr ([], [])"
| "get_class_attributes_with_references H res ((key, obj) # rest) =
     (case get_reference_uuid H (attributes_dict (H obj)) res key of
        Inl err \<Rightarrow> Inl err
      | Inr st \<Rightarrow>
          (case get_class_attributes_with_references H res rest of
             Inl err \<Rightarrow> Inl err
           | Inr (class_attributes_list, lg) \<Rightarrow>
               Inr (\<lparr>name_of = class_name (H obj), mRID_of = key,
                     attributes_of = reference_list st\<rparr> # class_attributes_list,
                    rlog st @ lg)))"

text \<open>\<open>_create_namespaces_list\<close>: the entries \<open>dict(key=..., url=...)\<close> in order.\<close>

definition create_namespaces_list :: "(string \<times> string) list \<Rightarrow> (string \<times> string) list" where
  "create_namespaces_list namespaces_dict = map (\<lambda>(key, url). (key, url)) namespaces_dict"

text \<open>\<open>os.path.join(cwd, name)\<close> on a POSIX system.\<close>

definition path_join :: "string \<Rightarrow> string \<Rightarrow> string" where
  "path_join cwd file_name =
     (if file_name \<noteq> [] \<and> hd file_name = CHR ''/'' then file_name
      else if cwd = [] \<or> last cwd = CHR ''/'' then cwd @ file_name
      else cwd @ ''/'' @ file_name)"

text \<open>
  The context handed to the template engine for one profile: the path of the file, the
  owned classes and the about entries (\<open>None\<close> for the source's \<open>False\<close>), the
  namespaces and the model header (identifier and description).
\<close>

record render_call =
  full_path :: string
  classes :: "class_dict list option"
  about :: "class_dict list option"
  namespaces :: "(string \<times> string) list"
  model_mRID :: string
  description :: "(string \<times> string) list"

text \<open>
  The state of the loop over the profiles: the paths that exist, the calls of the
  renderer so far (each writes its file), and the log.
\<close>

record export_state =
  existing :: "string list"
  rendered :: "render_call list"
  export_log :: "log_event list"

text \<open>
  The body of the loop over \<open>short_profile_name.items()\<close> (lines 312 to 356).
  \<open>created\<close> is the time stamp the caller took from the clock.
\<close>

definition export_profile ::
  "string \<Rightarrow> string \<Rightarrow> string \<Rightarrow> (string \<times> string) list \<Rightarrow> plan \<Rightarrow> plan \<Rightarrow>
   string \<times> string \<Rightarrow> export_state \<Rightarrow> export_state" where
  "export_profile cwd file_name created namespaces_list export_dict about_dict item st =
     (let profile_name = fst item; short_name = snd item in
      if map_of export_dict (Name short_name) = None \<and> map_of about_dict (Name short_name) = None
      then st
      else
        (let full_file_name = file_name @ ''_'' @ profile_name @ ''.xml'';
             path = path_join cwd full_file_name
         in if path \<notin> set (existing st)
            then st\<lparr>existing := existing st @ [path],
                    rendered := rendered st @
                      [\<lparr>full_path = path,
                        classes = map_of export_dict (Name short_name),
                        about = map_of about_dict (Name short_name),
                        namespaces = namespaces_list,
                        model_mRID = file_name,
                        description =
                          [(''created'', created),
                           (''modelingAuthoritySet'', ''www.acs.eonerc.rwth-aachen.de''),
                           (''profile'', profile_name)]\<rparr>],
                    export_log := export_log st @ [WriteFile path]\<rparr>
            else st\<lparr>export_log := export_log st @ [FileExists full_file_name]\<rparr>))"

definition export_profiles ::
  "string \<Rightarrow> string \<Rightarrow> string \<Rightarrow> (string \<times> string) list \<Rightarrow> plan \<Rightarrow> plan \<Rightarrow>
   export_state \<Rightarrow> export_state" where
  "export_profiles cwd file_name created namespaces_list export_dict about_dict st =
     fold (export_profile cwd file_name created namespaces_list export_dict about_dict)
       short_profile_name st"

text \<open>
  \<open>cim_export(res, namespaces_dict, file_name, version, activeProfileList)\<close>, with
  what it reads from its environment as parameters: the objects, the rank lists, the
  working directory, the clock and the existing paths. The result holds the rank lists
  and the log as the call leaves them, the renderer's calls, and the exception when the
  call raises. The two info lines at the start and the end of the call (with the elapsed
  time) are not part of the model, nor are failures of the file system and of the
  template engine.
\<close>

record export_result =
  final :: effects
  files :: "string list"
  calls :: "render_call list"
  raised :: "py_error option"

definition cim_export ::
  "obj_heap \<Rightarrow> registry \<Rightarrow> (string \<times> string) list \<Rightarrow> string \<Rightarrow> pkey list \<Rightarrow>
   string \<Rightarrow> string \<Rightarrow> string list \<Rightarrow> effects \<Rightarrow> export_result" where
  "cim_export H res namespaces_dict file_name activeProfileList cwd created fs eff =
     (case get_class_attributes_with_references H res res of
        Inl err \<Rightarrow> \<lparr>final = eff, files = fs, calls = [], raised = Some err\<rparr>
      | Inr (class_attributes_list, lg) \<Rightarrow>
          (case sort_classes_to_profile class_attributes_list activeProfileList
                  (eff\<lparr>logs := logs eff @ lg\<rparr>) of
             (eff', Inl err) \<Rightarrow> \<lparr>final = eff', files = fs, calls = [], raised = Some err\<rparr>
           | (eff', Inr (export_dict, about_dict)) \<Rightarrow>
               (let st = export_profiles cwd file_name created
                           (create_namespaces_list namespaces_dict) export_dict about_dict
                           \<lparr>existing = fs, rendered = [], export_log = []\<rparr>
                in \<lparr>final = eff'\<lparr>logs := logs eff' @ export_log st\<rparr>,
                    files = existing st, calls = rendered st, raised = None\<rparr>)))"

section \<open>Notions used to state the properties\<close>

subsection \<open>Of the reference resolver\<close>

text \<open>\<open>issubclass(type(elem), base_class)\<close>\<close>

fun is_model :: "pyval \<Rightarrow> bool" where
  "is_model (PObj a) = True"
| "is_model _ = False"

text \<open>
  The reference token of a model object, as lines 49 to 56 and 67 to 75 compute it: the
  marker \<open>%\<close> before the object's own \<open>mRID\<close>, or before the key
  \<open>_search_mRID\<close> finds for an object without one.
\<close>

definition object_uuid :: "obj_heap \<Rightarrow> registry \<Rightarrow> addr \<Rightarrow> py_error + string" where
  "object_uuid H res a =
     (case mRID_attr (H a) of
        None \<Rightarrow> Inr (''%'' @ search_mRID a res)
      | Some m \<Rightarrow> str_add ''%'' m)"

text \<open>A string that starts with the marker.\<close>

definition is_tok :: "string \<Rightarrow> bool" where
  "is_tok t = (\<exists>s. t = ''%'' @ s)"

text \<open>The default values the specification names: \<open>""\<close>, \<open>None\<close>, \<open>0\<close>, \<open>0.0\<close>.\<close>

definition is_default :: "pyval \<Rightarrow> bool" where
  "is_default v = py_in v [LStr '''', LNone, LFloat 0, LInt 0]"

text \<open>
  The invariant of the resolver's output: the value of an attribute record is none of
  the five filtered literals, and is not a list.
\<close>

definition kept_value :: "pyval \<Rightarrow> bool" where
  "kept_value v =
     (\<not> py_in v [LStr '''', LNone, LFloat 0, LInt 0, LStr ''many''] \<and> (\<forall>xs. v \<noteq> PList xs))"

definition records_ok :: "arecord list \<Rightarrow> bool" where
  "records_ok rs = (\<forall>k v. AttrRec k v \<in> set rs \<longrightarrow> kept_value v)"

text \<open>
  Objects for the examples: two terminals with identifiers \<open>T1\<close> and \<open>T2\<close> at the
  addresses 1 and 2, and at every other address a state-variable object without an
  \<open>mRID\<close> attribute.
\<close>

definition example_objects :: obj_heap where
  "example_objects =
     (\<lambda>a. \<lparr>class_name = ''SvVoltage'', mRID_attr = None, attributes_dict = []\<rparr>)
       (1 := \<lparr>class_name = ''Terminal'', mRID_attr = Some (PStr ''T1''), attributes_dict = []\<rparr>,
        2 := \<lparr>class_name = ''Terminal'', mRID_attr = Some (PStr ''T2''), attributes_dict = []\<rparr>)"

definition empty_rstate :: rstate where
  "empty_rstate = \<lparr>reference_list = [], rlog = [], elem_var = None\<rparr>"

subsection \<open>Of the sorting to profiles\<close>

text \<open>
  What a call may do to the rank lists: each list is as it was, or sorted in ascending
  order.
\<close>

definition sorted_from :: "(addr \<Rightarrow> int list) \<Rightarrow> (addr \<Rightarrow> int list) \<Rightarrow> bool" where
  "sorted_from L L' = (\<forall>a. L' a = L a \<or> L' a = sort (L a))"

text \<open>
  A profile is listed in a rank list when the list holds the rank of the profile with
  that short code.
\<close>

definition listed :: "pkey \<Rightarrow> int list \<Rightarrow> bool" where
  "listed p ranks =
     list_ex (\<lambda>r. case cgmesProfile_of r of
                     Inl err \<Rightarrow> False
                   | Inr m \<Rightarrow> p = Name (profile_name m)) ranks"

text \<open>
  The records of a plan stand under a profile and in a class entry. A property of the
  profile, the entry and the record holds throughout a plan.
\<close>

definition plan_all :: "(pkey \<Rightarrow> class_dict \<Rightarrow> arecord \<Rightarrow> bool) \<Rightarrow> plan \<Rightarrow> bool" where
  "plan_all Q pl = (\<forall>(p, cs) \<in> set pl. \<forall>c \<in> set cs. \<forall>r \<in> set (attributes_of c). Q p c r)"

text \<open>
  What the attribute loop ensures of a record it files under a profile: the record is an
  attribute whose name has a class part and a name part, the name part is not
  \<open>mRID\<close>, and, when possibleProfileList has a rank list for that class and name,
  the profile is active and is the entry of readInProfile for the name or is listed in
  that rank list.
\<close>

definition placed_ok ::
  "pkey list \<Rightarrow> readInProfile \<Rightarrow> possibleProfileList \<Rightarrow> (addr \<Rightarrow> int list) \<Rightarrow>
   arecord \<Rightarrow> pkey \<Rightarrow> bool" where
  "placed_ok activeProfileList readInProfile possibleProfileList L r p =
     (\<exists>attr_name v attribute_class attribute_name rest.
        r = AttrRec attr_name v \<and>
        split_dot attr_name = attribute_class # attribute_name # rest \<and>
        attribute_name \<noteq> ''mRID'' \<and>
        (\<forall>d a. map_of possibleProfileList attribute_class = Some d \<longrightarrow>
               map_of d attribute_name = Some a \<longrightarrow>
               p \<in> set activeProfileList \<and>
               (map_of readInProfile attribute_name = Some p \<or> listed p (L a))))"

text \<open>
  The same for an entry of a plan: it comes from a class of the input, of which it has
  the name, the identifier and the record.
\<close>

definition from_class ::
  "pkey list \<Rightarrow> (addr \<Rightarrow> int list) \<Rightarrow> class_dict set \<Rightarrow> pkey \<Rightarrow> class_dict \<Rightarrow> arecord \<Rightarrow> bool"
  where
  "from_class activeProfileList L K p c r =
     (\<exists>klass \<in> K. \<exists>readInProfile possibleProfileList.
        name_of klass = name_of c \<and> mRID_of klass = mRID_of c \<and>
        r \<in> set (attributes_of klass) \<and>
        read_metadata (attributes_of klass) = Inr (readInProfile, possibleProfileList) \<and>
        placed_ok activeProfileList readInProfile possibleProfileList L r p)"

text \<open>A property of key and element that holds throughout a dict of lists.\<close>

definition dict_all :: "('k \<Rightarrow> 'v \<Rightarrow> bool) \<Rightarrow> ('k \<times> 'v list) list \<Rightarrow> bool" where
  "dict_all Q d = (\<forall>(k, vs) \<in> set d. \<forall>v \<in> set vs. Q k v)"

subsection \<open>An example export\<close>

text \<open>
  A line segment \<open>L1\<close> created by an import. Its resistance was read from the
  state-variables profile. The rank list of the class is \<open>[SSH, EQ]\<close> (at address
  10), that of the resistance \<open>[EQ]\<close> (at 11), that of the inherited name and
  identifier \<open>[SSH]\<close> (at 12).
\<close>

definition example_lists :: "addr \<Rightarrow> int list" where
  "example_lists = (\<lambda>a. [])(10 := [1, 0], 11 := [0], 12 := [1])"

definition example_effects :: effects where
  "example_effects = \<lparr>lists = example_lists, logs = []\<rparr>"

definition example_possible :: pyval where
  "example_possible =
     PPossible [(''IdentifiedObject'', [(''mRID'', 12), (''name'', 12)]),
                (''ACLineSegment'', [(''class'', 10), (''r'', 11)])]"

definition example_class :: class_dict where
  "example_class =
     \<lparr>name_of = ''ACLineSegment'', mRID_of = ''L1'',
      attributes_of =
        [MetaRec ''readInProfile'' (PReadIn [(''r'', Name ''SV'')]),
         MetaRec ''possibleProfileList'' example_possible,
         AttrRec ''IdentifiedObject.mRID'' (PStr ''L1''),
         AttrRec ''IdentifiedObject.name'' (PStr ''line''),
         AttrRec ''ACLineSegment.r'' (PInt 5)]\<rparr>"

definition example_active :: "pkey list" where
  "example_active = [Name ''EQ'', Name ''SSH'', Name ''SV'']"

definition example_registry :: registry where
  "example_registry = [(''L1'', 3)]"

definition example_model :: obj_heap where
  "example_model =
     (\<lambda>a. \<lparr>class_name = ''SvVoltage'', mRID_attr = None, attributes_dict = []\<rparr>)
       (3 := \<lparr>class_name = ''ACLineSegment'', mRID_attr = Some (PStr ''L1''),
              attributes_dict =
                [(''readInProfile'', PReadIn [(''r'', Name ''SV'')]),
                 (''possibleProfileList'', example_possible),
                 (''IdentifiedObject.mRID'', PStr ''L1''),
                 (''IdentifiedObject.name'', PStr ''line''),
                 (''IdentifiedObject.description'', PStr []),
                 (''ACLineSegment.r'', PInt 5)]\<rparr>)"

text \<open>The entries the example leaves in the plans.\<close>

definition example_owned :: class_dict where
  "example_owned = \<lparr>name_of = ''ACLineSegment'', mRID_of = ''L1'', attributes_of = []\<rparr>"

definition example_about_SSH :: class_dict where
  "example_about_SSH =
     \<lparr>name_of = ''ACLineSegment'', mRID_of = ''L1'',
      attributes_of = [AttrRec ''IdentifiedObject.name'' (PStr ''line'')]\<rparr>"

definition example_about_SV :: class_dict where
  "example_about_SV =
     \<lparr>name_of = ''ACLineSegment'', mRID_of = ''L1'',
      attributes_of = [AttrRec ''ACLineSegment.r'' (PInt 5)]\<rparr>"

text \<open>
  A class that was read from the steady-state-hypothesis profile, which is active and
  whose rank is in the list of the class.
\<close>

definition example_read_class :: class_dict where
  "example_read_class =
     \<lparr>name_of = ''ACLineSegment'', mRID_of = ''L1'',
      attributes_of =
        [MetaRec ''readInProfile'' (PReadIn [(''class'', Name ''SSH'')]),
         MetaRec ''possibleProfileList'' example_possible]\<rparr>"

text \<open>A class without an entry in its possibleProfileList, with one attribute read from
  the equipment profile.\<close>

definition example_unlisted_class :: class_dict where
  "example_unlisted_class =
     \<lparr>name_of = ''Foo'', mRID_of = ''F1'',
      attributes_of =
        [MetaRec ''readInProfile'' (PReadIn [(''x'', Name ''EQ'')]),
         MetaRec ''possibleProfileList'' (PPossible []),
         AttrRec ''Foo.x'' (PInt 1)]\<rparr>"

section \<open>Properties of the reference resolver\<close>

lemma str_add_Inr: "str_add p v = Inr u \<longleftrightarrow> (\<exists>s. v = PStr s \<and> u = p @ s)"
  by (cases v) auto

lemma is_tok_Cons [simp]: "is_tok (CHR ''%'' # s)"
  by (simp add: is_tok_def)

lemma token_kept: "is_tok t \<Longrightarrow> kept_value (PStr t)"
  by (auto simp: is_tok_def kept_value_def py_in_def)

lemma token_not_filtered:
  "is_tok t \<Longrightarrow> \<not> py_in (PStr t) [LStr '''', LNone, LFloat 0, LInt 0]"
  by (auto simp: is_tok_def py_in_def)

lemma elem_loop_tokens:
  "elem_loop H res mRID xs (array, lg, el) = Inr (array', lg', el') \<Longrightarrow>
   list_all is_tok array \<Longrightarrow> list_all is_tok array'"
proof (induction xs arbitrary: array lg el)
  case Nil
  then show ?case by simp
next
  case (Cons e es)
  show ?case
  proof (cases e)
    case (PObj a)
    show ?thesis
    proof (cases "mRID_attr (H a)")
      case None
      with PObj Cons.prems show ?thesis
        by (auto simp: Let_def split: if_splits elim!: Cons.IH)
    next
      case (Some m)
      with PObj Cons.prems show ?thesis
        by (auto simp: str_add_Inr split: sum.splits elim!: Cons.IH)
    qed
  qed (use Cons in auto)
qed

text \<open>One step of the element loop, read off the definition.\<close>

lemma elem_loop_model:
  "elem_loop H res mRID (PObj a # es) (array, lg, el) = Inr r \<Longrightarrow>
   \<exists>t lg1. object_uuid H res a = Inr t \<and>
     (mRID_attr (H a) = None \<and> search_mRID a res = [] \<longrightarrow>
        t = ''%'' \<and> lg1 = lg @ [ObjectNotFound (class_name (H a)) mRID]) \<and>
     (\<exists>ws. lg1 = lg @ ws \<and> NotSubclass mRID \<notin> set ws) \<and>
     elem_loop H res mRID es (array @ [t], lg1, Some (PObj a)) = Inr r"
proof (cases "mRID_attr (H a)")
  case None
  assume run: "elem_loop H res mRID (PObj a # es) (array, lg, el) = Inr r"
  show ?thesis
  proof (cases "search_mRID a res = []")
    case True
    with None run show ?thesis
      by (intro exI[of _ "''%''"] exI[of _ "lg @ [ObjectNotFound (class_name (H a)) mRID]"])
         (simp add: object_uuid_def)
  next
    case False
    with None run show ?thesis
      by (intro exI[of _ "''%'' @ search_mRID a res"] exI[of _ lg])
         (simp add: object_uuid_def)
  qed
next
  case (Some m)
  assume run: "elem_loop H res mRID (PObj a # es) (array, lg, el) = Inr r"
  with Some obtain t where "str_add ''%'' m = Inr t"
    "elem_loop H res mRID es (array @ [t], lg, Some (PObj a)) = Inr r"
    by (auto split: sum.splits)
  with Some show ?thesis
    by (intro exI[of _ t] exI[of _ lg]) (simp add: object_uuid_def)
qed

lemma elem_loop_other:
  "\<not> is_model e \<Longrightarrow>
   elem_loop H res mRID (e # es) (array, lg, el) =
   elem_loop H res mRID es (array, lg @ [NotSubclass mRID], Some e)"
  by (cases e) auto

lemma elem_loop_array:
  "elem_loop H res mRID xs (array, lg, el) = Inr (array', lg', el') \<Longrightarrow>
   \<exists>ts. array' = array @ ts \<and>
     list_all2 (\<lambda>e t. \<exists>a. e = PObj a \<and> object_uuid H res a = Inr t) (filter is_model xs) ts"
proof (induction xs arbitrary: array lg el)
  case Nil
  then show ?case by simp
next
  case (Cons e es)
  show ?case
  proof (cases "is_model e")
    case True
    then obtain a where e: "e = PObj a" by (cases e) auto
    from elem_loop_model[OF Cons.prems[unfolded e]] obtain t lg1 where
      t: "object_uuid H res a = Inr t" and
      rest: "elem_loop H res mRID es (array @ [t], lg1, Some (PObj a)) = Inr (array', lg', el')"
      by blast
    from Cons.IH[OF rest] obtain ts where
      "array' = (array @ [t]) @ ts"
      "list_all2 (\<lambda>e t. \<exists>a. e = PObj a \<and> object_uuid H res a = Inr t) (filter is_model es) ts"
      by blast
    with t e show ?thesis
      by (intro exI[of _ "t # ts"]) simp
  next
    case False
    from Cons.prems(1)[unfolded elem_loop_other[OF False]] have
      "elem_loop H res mRID es (array, lg @ [NotSubclass mRID], Some e) = Inr (array', lg', el')" .
    from Cons.IH[OF this] False show ?thesis by simp
  qed
qed

lemma elem_loop_log:
  "elem_loop H res mRID xs (array, lg, el) = Inr (array', lg', el') \<Longrightarrow>
   \<exists>ws. lg' = lg @ ws \<and>
     length (filter (\<lambda>w. w = NotSubclass mRID) ws) = length (filter (\<lambda>e. \<not> is_model e) xs)"
proof (induction xs arbitrary: array lg el)
  case Nil
  then show ?case by simp
next
  case (Cons e es)
  show ?case
  proof (cases "is_model e")
    case True
    then obtain a where e: "e = PObj a" by (cases e) auto
    from elem_loop_model[OF Cons.prems[unfolded e]] obtain t lg1 ws1 where
      lg1: "lg1 = lg @ ws1" "NotSubclass mRID \<notin> set ws1" and
      rest: "elem_loop H res mRID es (array @ [t], lg1, Some (PObj a)) = Inr (array', lg', el')"
      by blast
    from Cons.IH[OF rest] obtain ws where
      "lg' = lg1 @ ws"
      "length (filter (\<lambda>w. w = NotSubclass mRID) ws) = length (filter (\<lambda>e. \<not> is_model e) es)"
      by blast
    with lg1 True show ?thesis
      by (intro exI[of _ "ws1 @ ws"]) (auto simp: filter_empty_conv)
  next
    case False
    from Cons.prems(1)[unfolded elem_loop_other[OF False]] have
      "elem_loop H res mRID es (array, lg @ [NotSubclass mRID], Some e) = Inr (array', lg', el')" .
    from Cons.IH[OF this] obtain ws where
      "lg' = (lg @ [NotSubclass mRID]) @ ws"
      "length (filter (\<lambda>w. w = NotSubclass mRID) ws) = length (filter (\<lambda>e. \<not> is_model e) es)"
      by blast
    with False show ?thesis
      by (intro exI[of _ "NotSubclass mRID # ws"]) simp
  qed
qed

lemma elem_loop_not_found:
  "elem_loop H res mRID xs (array, lg, el) = Inr (array', lg', el') \<Longrightarrow>
   PObj a \<in> set xs \<Longrightarrow> mRID_attr (H a) = None \<Longrightarrow> search_mRID a res = [] \<Longrightarrow>
   ''%'' \<in> set array' \<and> ObjectNotFound (class_name (H a)) mRID \<in> set lg'"
proof (induction xs arbitrary: array lg el)
  case Nil
  then show ?case by simp
next
  case (Cons e es)
  show ?case
  proof (cases "e = PObj a")
    case True
    from elem_loop_model[OF Cons.prems(1)[unfolded True]] Cons.prems(3,4) have
      rest: "elem_loop H res mRID es
               (array @ [''%''], lg @ [ObjectNotFound (class_name (H a)) mRID], Some (PObj a)) =
             Inr (array', lg', el')"
      by auto
    from elem_loop_array[OF rest] elem_loop_log[OF rest] show ?thesis by auto
  next
    case False
    with Cons.prems(2) have mem: "PObj a \<in> set es" by simp
    show ?thesis
    proof (cases "is_model e")
      case True
      then obtain b where e: "e = PObj b" by (cases e) auto
      from elem_loop_model[OF Cons.prems(1)[unfolded e]] obtain t lg1 where
        "elem_loop H res mRID es (array @ [t], lg1, Some (PObj b)) = Inr (array', lg', el')"
        by blast
      from Cons.IH[OF this mem Cons.prems(3,4)] show ?thesis .
    next
      case False
      from Cons.prems(1)[unfolded elem_loop_other[OF False]] have
        "elem_loop H res mRID es (array, lg @ [NotSubclass mRID], Some e) = Inr (array', lg', el')" .
      from Cons.IH[OF this mem Cons.prems(3,4)] show ?thesis .
    qed
  qed
qed

lemma emit_None [simp]: "emit key None st = st"
  by (simp add: emit_def)

lemma emit_token [simp]:
  "is_tok t \<Longrightarrow> emit key (Some (PStr t)) st =
     st\<lparr>reference_list := reference_list st @ [AttrRec key (PStr t)]\<rparr>"
  by (auto simp: emit_def is_tok_def py_in_def)

lemma emit_tokens [simp]:
  "list_all is_tok ts \<Longrightarrow> emit key (Some (PList (map PStr ts))) st =
     st\<lparr>reference_list := reference_list st @ map (\<lambda>t. AttrRec key (PStr t)) ts\<rparr>"
proof -
  assume "list_all is_tok ts"
  then have "filter (\<lambda>i. \<not> py_in i [LStr '''', LNone, LFloat 0, LInt 0]) (map PStr ts) = map PStr ts"
    by (induction ts) (auto simp: token_not_filtered)
  then show ?thesis by (simp add: emit_def comp_def)
qed

text \<open>The list branch of the loop body.\<close>

lemma resolve_attr_list:
  assumes "key \<notin> set [''readInProfile'', ''possibleProfileList'']"
    and "resolve_attr H res mRID (key, PList xs) st = Inr st'"
  shows "\<exists>array lg el.
     elem_loop H res mRID xs ([], rlog st, elem_var st) = Inr (array, lg, el) \<and>
     st' = st\<lparr>rlog := lg, elem_var := el,
              reference_list := reference_list st @ map (\<lambda>t. AttrRec key (PStr t)) array\<rparr>"
proof -
  from assms obtain array lg el where
    loop: "elem_loop H res mRID xs ([], rlog st, elem_var st) = Inr (array, lg, el)"
    and st': "st' = emit key
               (Some (if length array = 1 then PStr (hd array) else PList (map PStr array)))
               (st\<lparr>rlog := lg, elem_var := el\<rparr>)"
    by (auto simp: resolve_attr_def split: sum.splits)
  from elem_loop_tokens[OF loop] have tok: "list_all is_tok array" by simp
  show ?thesis
  proof (cases "length array = 1")
    case True
    then obtain t where "array = [t]" by (cases array) auto
    with tok st' loop show ?thesis by auto
  next
    case False
    with tok st' loop show ?thesis by auto
  qed
qed

text \<open>The branch of a single model object.\<close>

lemma resolve_attr_object:
  assumes "key \<notin> set [''readInProfile'', ''possibleProfileList'']"
    and "resolve_attr H res mRID (key, PObj a) st = Inr st'"
  shows "\<exists>t ws. object_uuid H res a = Inr t \<and>
     st' = st\<lparr>rlog := rlog st @ ws,
              reference_list := reference_list st @ [AttrRec key (PStr t)]\<rparr>"
proof (cases "mRID_attr (H a)")
  case None
  show ?thesis
  proof (cases "search_mRID a res = []")
    case True
    with None assms obtain e where "elem_var st = Some e"
      "st' = emit key (Some (PStr ''%''))
               (st\<lparr>rlog := rlog st @ [ObjectNotFound (type_name H e) mRID]\<rparr>)"
      by (auto simp: resolve_attr_def split: option.splits)
    with None True show ?thesis
      by (intro exI[of _ "''%''"] exI[of _ "[ObjectNotFound (type_name H e) mRID]"])
         (simp add: object_uuid_def)
  next
    case False
    with None assms show ?thesis
      by (intro exI[of _ "''%'' @ search_mRID a res"] exI[of _ "[]"])
         (simp add: resolve_attr_def object_uuid_def)
  qed
next
  case (Some m)
  with assms obtain t where "str_add ''%'' m = Inr t" "st' = emit key (Some (PStr t)) st"
    by (auto simp: resolve_attr_def split: sum.splits)
  moreover from this have "is_tok t" by (auto simp: str_add_Inr)
  ultimately show ?thesis using Some
    by (intro exI[of _ t] exI[of _ "[]"]) (simp add: object_uuid_def)
qed

text \<open>Every other value: a scalar, kept or filtered.\<close>

lemma resolve_attr_scalar:
  assumes "key \<notin> set [''readInProfile'', ''possibleProfileList'']"
    and "\<not> is_model v" and "\<forall>xs. v \<noteq> PList xs"
  shows "resolve_attr H res mRID (key, v) st =
     Inr (if py_in v [LStr '''', LNone, LFloat 0, LInt 0, LStr ''many''] then st
          else st\<lparr>reference_list := reference_list st @ [AttrRec key v]\<rparr>)"
  using assms by (cases v) (auto simp: resolve_attr_def emit_def py_in_def)

lemma resolve_attr_meta:
  "key \<in> set [''readInProfile'', ''possibleProfileList''] \<Longrightarrow>
   resolve_attr H res mRID (key, v) st =
     Inr (st\<lparr>reference_list := reference_list st @ [MetaRec key v]\<rparr>)"
  by (simp add: resolve_attr_def)

lemma resolve_attr_mono:
  assumes "resolve_attr H res mRID kv st = Inr st'"
  shows "\<exists>rs ws. reference_list st' = reference_list st @ rs \<and> rlog st' = rlog st @ ws"
proof -
  obtain key v where kv: "kv = (key, v)" by (cases kv)
  show ?thesis
  proof (cases "key \<in> set [''readInProfile'', ''possibleProfileList'']")
    case True
    from assms[unfolded kv resolve_attr_meta[OF True]] show ?thesis by auto
  next
    case False
    show ?thesis
    proof (cases "is_model v")
      case True
      then obtain a where "v = PObj a" by (cases v) auto
      with resolve_attr_object[OF False] assms kv show ?thesis by fastforce
    next
      case nm: False
      show ?thesis
      proof (cases "\<exists>xs. v = PList xs")
        case True
        then obtain xs where v: "v = PList xs" by blast
        from resolve_attr_list[OF False assms[unfolded kv v]] obtain array lg el where
          loop: "elem_loop H res mRID xs ([], rlog st, elem_var st) = Inr (array, lg, el)"
          and st': "st' = st\<lparr>rlog := lg, elem_var := el,
              reference_list := reference_list st @ map (\<lambda>t. AttrRec key (PStr t)) array\<rparr>"
          by blast
        from elem_loop_log[OF loop] st' show ?thesis by auto
      next
        case False
        with assms[unfolded kv] resolve_attr_scalar[OF \<open>key \<notin> _\<close> nm, of H res mRID st]
        show ?thesis by (auto split: if_splits)
      qed
    qed
  qed
qed

lemma resolve_attr_ok:
  assumes "resolve_attr H res mRID kv st = Inr st'" "records_ok (reference_list st)"
  shows "records_ok (reference_list st')"
proof -
  obtain key v where kv: "kv = (key, v)" by (cases kv)
  show ?thesis
  proof (cases "key \<in> set [''readInProfile'', ''possibleProfileList'']")
    case True
    from assms[unfolded kv resolve_attr_meta[OF True]] show ?thesis
      by (auto simp: records_ok_def)
  next
    case False
    show ?thesis
    proof (cases "is_model v")
      case True
      then obtain a where v: "v = PObj a" by (cases v) auto
      from resolve_attr_object[OF False assms(1)[unfolded kv v]] obtain t ws where
        t: "object_uuid H res a = Inr t" and
        st': "st' = st\<lparr>rlog := rlog st @ ws,
              reference_list := reference_list st @ [AttrRec key (PStr t)]\<rparr>"
        by blast
      from t have "is_tok t"
        by (auto simp: object_uuid_def str_add_Inr split: option.splits)
      with st' assms(2) show ?thesis
        by (auto simp: records_ok_def dest: token_kept)
    next
      case nm: False
      show ?thesis
      proof (cases "\<exists>xs. v = PList xs")
        case True
        then obtain xs where v: "v = PList xs" by blast
        from resolve_attr_list[OF False assms(1)[unfolded kv v]] obtain array lg el where
          loop: "elem_loop H res mRID xs ([], rlog st, elem_var st) = Inr (array, lg, el)"
          and st': "st' = st\<lparr>rlog := lg, elem_var := el,
              reference_list := reference_list st @ map (\<lambda>t. AttrRec key (PStr t)) array\<rparr>"
          by blast
        from elem_loop_tokens[OF loop] have "list_all is_tok array" by simp
        with st' assms(2) show ?thesis
          by (auto simp: records_ok_def list_all_iff dest: token_kept)
      next
        case False
        with assms[unfolded kv] resolve_attr_scalar[OF \<open>key \<notin> _\<close> nm, of H res mRID st]
        show ?thesis by (auto simp: records_ok_def kept_value_def split: if_splits)
      qed
    qed
  qed
qed

lemma resolve_loop_ok:
  "resolve_loop H res mRID attr_dict st = Inr st' \<Longrightarrow> records_ok (reference_list st) \<Longrightarrow>
   records_ok (reference_list st')"
proof (induction attr_dict arbitrary: st)
  case Nil
  then show ?case by simp
next
  case (Cons kv rest)
  then show ?case
    by (auto split: sum.splits dest: resolve_attr_ok)
qed

lemma get_reference_uuid_ok:
  "get_reference_uuid H attr_dict res mRID = Inr out \<Longrightarrow> records_ok (reference_list out)"
  unfolding get_reference_uuid_def
  by (erule resolve_loop_ok) (simp add: records_ok_def)

lemma resolve_loop_mono:
  "resolve_loop H res mRID attr_dict st = Inr st' \<Longrightarrow>
   \<exists>rs ws. reference_list st' = reference_list st @ rs \<and> rlog st' = rlog st @ ws"
proof (induction attr_dict arbitrary: st)
  case Nil
  then show ?case by simp
next
  case (Cons kv rest)
  then obtain st1 where s1: "resolve_attr H res mRID kv st = Inr st1"
    and s2: "resolve_loop H res mRID rest st1 = Inr st'"
    by (auto split: sum.splits)
  from resolve_attr_mono[OF s1] Cons.IH[OF s2] show ?case by auto
qed

lemma resolve_loop_member:
  "resolve_loop H res mRID attr_dict st = Inr out \<Longrightarrow> kv \<in> set attr_dict \<Longrightarrow>
   \<exists>st1 st2. resolve_attr H res mRID kv st1 = Inr st2 \<and>
     set (reference_list st2) \<subseteq> set (reference_list out) \<and> set (rlog st2) \<subseteq> set (rlog out)"
proof (induction attr_dict arbitrary: st)
  case Nil
  then show ?case by simp
next
  case (Cons x rest)
  from Cons.prems(1) obtain st1 where s1: "resolve_attr H res mRID x st = Inr st1"
    and s2: "resolve_loop H res mRID rest st1 = Inr out"
    by (auto split: sum.splits)
  show ?case
  proof (cases "kv = x")
    case True
    from resolve_loop_mono[OF s2] s1 True show ?thesis
      by (intro exI[of _ st] exI[of _ st1]) auto
  next
    case False
    with Cons.prems(2) have "kv \<in> set rest" by simp
    from Cons.IH[OF s2 this] show ?thesis .
  qed
qed

subsection \<open>Default suppression\<close>

text \<open>
  Claim C5. Whatever the attribute map, no attribute record the resolver returns has a
  value equal to \<open>""\<close>, \<open>None\<close>, \<open>0\<close> or \<open>0.0\<close>, and if the value of a
  record were a list, no element of it would be such a value. (In fact no record holds a
  list: see \<open>get_reference_uuid_ok\<close>.)
\<close>

theorem default_suppression:
  assumes "get_reference_uuid H attr_dict res mRID = Inr out"
    and "AttrRec key v \<in> set (reference_list out)"
  shows "\<not> is_default v \<and>
         (\<forall>items. v = PList items \<longrightarrow> list_all (\<lambda>item. \<not> is_default item) items)"
proof -
  from get_reference_uuid_ok[OF assms(1)] assms(2) have "kept_value v"
    by (simp add: records_ok_def)
  then show ?thesis
    by (auto simp: kept_value_def is_default_def py_in_def)
qed

text \<open>
  An attribute map with a zero, an empty string, \<open>None\<close>, a kept integer and a list
  of two terminals around a non-model element.
\<close>

lemma resolver_example:
  "get_reference_uuid example_objects
     [(''ACLineSegment.r'', PFloat (Finite 0)), (''ACLineSegment.length'', PInt 7),
      (''IdentifiedObject.name'', PStr []), (''Equipment.aggregate'', PNone),
      (''ACLineSegment.Terminals'', PList [PObj 1, PInt 0, PObj 2])] [] ''L1''
   = Inr \<lparr>reference_list =
            [AttrRec ''ACLineSegment.length'' (PInt 7),
             AttrRec ''ACLineSegment.Terminals'' (PStr ''%T1''),
             AttrRec ''ACLineSegment.Terminals'' (PStr ''%T2'')],
          rlog = [NotSubclass ''L1''], elem_var = Some (PObj 2)\<rparr>"
  by (simp add: get_reference_uuid_def resolve_attr_def emit_def py_in_def Let_def
      example_objects_def)

theorem default_suppression_witness:
  "get_reference_uuid example_objects
     [(''ACLineSegment.r'', PFloat (Finite 0)), (''ACLineSegment.length'', PInt 7),
      (''IdentifiedObject.name'', PStr []), (''Equipment.aggregate'', PNone),
      (''ACLineSegment.Terminals'', PList [PObj 1, PInt 0, PObj 2])] [] ''L1''
   = Inr \<lparr>reference_list =
            [AttrRec ''ACLineSegment.length'' (PInt 7),
             AttrRec ''ACLineSegment.Terminals'' (PStr ''%T1''),
             AttrRec ''ACLineSegment.Terminals'' (PStr ''%T2'')],
          rlog = [NotSubclass ''L1''], elem_var = Some (PObj 2)\<rparr>
   \<and> \<not> is_default (PInt 7)"
  using default_suppression[OF resolver_example, of "''ACLineSegment.length''" "PInt 7"]
    resolver_example
  by simp

subsection \<open>The values the filter drops beyond the defaults\<close>

text \<open>
  Claim C10. A scalar attribute whose value is \<open>False\<close> (equal to \<open>0\<close> in
  Python) or the string \<open>'many'\<close> leaves the state of the loop as it was: no
  record and no log entry. No attribute map makes the resolver return a record of that
  name with such a value.
\<close>

theorem false_and_many_dropped:
  assumes "key \<notin> set [''readInProfile'', ''possibleProfileList'']"
    and "v = PBool False \<or> v = PStr ''many''"
  shows "resolve_attr H res mRID (key, v) st = Inr st \<and>
         (\<forall>attr_dict out. get_reference_uuid H attr_dict res mRID = Inr out \<longrightarrow>
            AttrRec key v \<notin> set (reference_list out))"
proof
  from assms show "resolve_attr H res mRID (key, v) st = Inr st"
    by (auto simp: resolve_attr_scalar py_in_def)
next
  show "\<forall>attr_dict out. get_reference_uuid H attr_dict res mRID = Inr out \<longrightarrow>
          AttrRec key v \<notin> set (reference_list out)"
  proof (intro allI impI notI)
    fix attr_dict out
    assume "get_reference_uuid H attr_dict res mRID = Inr out"
      and "AttrRec key v \<in> set (reference_list out)"
    with get_reference_uuid_ok have "kept_value v"
      by (auto simp: records_ok_def)
    with assms(2) show False
      by (auto simp: kept_value_def py_in_def)
  qed
qed

lemma resolver_example_false:
  "get_reference_uuid example_objects
     [(''Switch.normalOpen'', PBool False), (''Switch.retained'', PBool True),
      (''Terminal.phases'', PStr ''many'')] [] ''S1''
   = Inr \<lparr>reference_list = [AttrRec ''Switch.retained'' (PBool True)],
          rlog = [], elem_var = None\<rparr>"
  by (simp add: get_reference_uuid_def resolve_attr_def emit_def py_in_def Let_def)

theorem false_and_many_dropped_witness:
  "resolve_attr example_objects [] ''S1'' (''Switch.normalOpen'', PBool False) empty_rstate
     = Inr empty_rstate
   \<and> AttrRec ''Switch.normalOpen'' (PBool False) \<notin>
       set [AttrRec ''Switch.retained'' (PBool True)]
   \<and> get_reference_uuid example_objects
        [(''Switch.normalOpen'', PBool False), (''Switch.retained'', PBool True),
         (''Terminal.phases'', PStr ''many'')] [] ''S1''
      = Inr \<lparr>reference_list = [AttrRec ''Switch.retained'' (PBool True)],
             rlog = [], elem_var = None\<rparr>"
  using false_and_many_dropped[of "''Switch.normalOpen''" "PBool False" example_objects "[]"
      "''S1''" empty_rstate]
    resolver_example_false
  by simp

subsection \<open>List-valued attributes\<close>

text \<open>
  Claim C6, as amended. A list-valued attribute yields one scalar record per model
  object of the list, in the order of the list, each holding the reference token of its
  object under the attribute's name: one record for a list with one model object,
  several separate records (and never one record holding a list) for a list with more.
  The other elements yield no record and one warning each.
\<close>

theorem list_attribute_records:
  assumes "key \<notin> set [''readInProfile'', ''possibleProfileList'']"
    and "resolve_attr H res mRID (key, PList xs) st = Inr st'"
  shows "\<exists>ts ws.
     list_all2 (\<lambda>e t. \<exists>a. e = PObj a \<and> object_uuid H res a = Inr t) (filter is_model xs) ts \<and>
     reference_list st' = reference_list st @ map (\<lambda>t. AttrRec key (PStr t)) ts \<and>
     rlog st' = rlog st @ ws \<and>
     length (filter (\<lambda>w. w = NotSubclass mRID) ws) = length (filter (\<lambda>e. \<not> is_model e) xs)"
proof -
  from resolve_attr_list[OF assms] obtain array lg el where
    loop: "elem_loop H res mRID xs ([], rlog st, elem_var st) = Inr (array, lg, el)"
    and st': "st' = st\<lparr>rlog := lg, elem_var := el,
        reference_list := reference_list st @ map (\<lambda>t. AttrRec key (PStr t)) array\<rparr>"
    by blast
  from elem_loop_array[OF loop] have
    "list_all2 (\<lambda>e t. \<exists>a. e = PObj a \<and> object_uuid H res a = Inr t) (filter is_model xs) array"
    by simp
  moreover from elem_loop_log[OF loop] obtain ws where
    "lg = rlog st @ ws"
    "length (filter (\<lambda>w. w = NotSubclass mRID) ws) = length (filter (\<lambda>e. \<not> is_model e) xs)"
    by blast
  ultimately show ?thesis using st' by auto
qed

lemma list_attribute_example:
  "resolve_attr example_objects [] ''L1''
     (''ACLineSegment.Terminals'', PList [PObj 1, PInt 0, PObj 2]) empty_rstate
   = Inr \<lparr>reference_list =
            [AttrRec ''ACLineSegment.Terminals'' (PStr ''%T1''),
             AttrRec ''ACLineSegment.Terminals'' (PStr ''%T2'')],
          rlog = [NotSubclass ''L1''], elem_var = Some (PObj 2)\<rparr>"
  by (simp add: resolve_attr_def emit_def py_in_def Let_def example_objects_def
      empty_rstate_def)

theorem list_attribute_records_witness:
  "resolve_attr example_objects [] ''L1''
     (''ACLineSegment.Terminals'', PList [PObj 1, PInt 0, PObj 2]) empty_rstate
   = Inr \<lparr>reference_list =
            [AttrRec ''ACLineSegment.Terminals'' (PStr ''%T1''),
             AttrRec ''ACLineSegment.Terminals'' (PStr ''%T2'')],
          rlog = [NotSubclass ''L1''], elem_var = Some (PObj 2)\<rparr>
   \<and> (\<exists>ts ws.
     list_all2 (\<lambda>e t. \<exists>a. e = PObj a \<and> object_uuid example_objects [] a = Inr t)
       (filter is_model [PObj 1, PInt 0, PObj 2]) ts \<and>
     [AttrRec ''ACLineSegment.Terminals'' (PStr ''%T1''),
      AttrRec ''ACLineSegment.Terminals'' (PStr ''%T2'')] =
       map (\<lambda>t. AttrRec ''ACLineSegment.Terminals'' (PStr t)) ts \<and>
     [NotSubclass ''L1''] = ws \<and>
     length (filter (\<lambda>w. w = NotSubclass ''L1'') ws) =
       length (filter (\<lambda>e. \<not> is_model e) [PObj 1, PInt 0, PObj 2]))"
  using list_attribute_records[OF _ list_attribute_example] list_attribute_example
  by (simp add: empty_rstate_def)

text \<open>
  Claim C6 as it is stated fails: a list of two terminals yields two scalar records,
  not one record whose value is the list of the two tokens.
\<close>

theorem list_record_counterexample:
  "get_reference_uuid example_objects
     [(''ACLineSegment.Terminals'', PList [PObj 1, PObj 2])] [] ''L1''
   = Inr \<lparr>reference_list =
            [AttrRec ''ACLineSegment.Terminals'' (PStr ''%T1''),
             AttrRec ''ACLineSegment.Terminals'' (PStr ''%T2'')],
          rlog = [], elem_var = Some (PObj 2)\<rparr>
   \<and> \<not> (\<exists>out. get_reference_uuid example_objects
              [(''ACLineSegment.Terminals'', PList [PObj 1, PObj 2])] [] ''L1'' = Inr out \<and>
            reference_list out =
              [AttrRec ''ACLineSegment.Terminals'' (PList [PStr ''%T1'', PStr ''%T2''])])"
  by (simp add: get_reference_uuid_def resolve_attr_def emit_def py_in_def Let_def
      example_objects_def)

subsection \<open>References that cannot be resolved\<close>

text \<open>
  Claim C3, as amended. A reference to a model object that has no \<open>mRID\<close> attribute
  and is not found in the registry is not left out: whenever the resolver returns, its
  records hold the attribute with the bare marker \<open>%\<close> as the token. For such an
  object in a list, the log holds the warning that names the class of the object and the
  identifier of the owner.
\<close>

theorem unresolved_reference_kept:
  assumes "get_reference_uuid H attr_dict res mRID = Inr out"
    and "key \<notin> set [''readInProfile'', ''possibleProfileList'']"
    and "mRID_attr (H a) = None" and "search_mRID a res = []"
    and "(key, PObj a) \<in> set attr_dict \<or>
         (\<exists>xs. (key, PList xs) \<in> set attr_dict \<and> PObj a \<in> set xs)"
  shows "AttrRec key (PStr ''%'') \<in> set (reference_list out) \<and>
         ((\<exists>xs. (key, PList xs) \<in> set attr_dict \<and> PObj a \<in> set xs) \<longrightarrow>
            ObjectNotFound (class_name (H a)) mRID \<in> set (rlog out))"
proof -
  have list_case: "AttrRec key (PStr ''%'') \<in> set (reference_list out) \<and>
       ObjectNotFound (class_name (H a)) mRID \<in> set (rlog out)"
    if mem: "(key, PList xs) \<in> set attr_dict" and a: "PObj a \<in> set xs" for xs
  proof -
    from resolve_loop_member[OF assms(1)[unfolded get_reference_uuid_def] mem]
    obtain st1 st2 where
      step: "resolve_attr H res mRID (key, PList xs) st1 = Inr st2" and
      sub: "set (reference_list st2) \<subseteq> set (reference_list out)"
        "set (rlog st2) \<subseteq> set (rlog out)"
      by blast
    from resolve_attr_list[OF assms(2) step] obtain array lg el where
      loop: "elem_loop H res mRID xs ([], rlog st1, elem_var st1) = Inr (array, lg, el)"
      and st2: "st2 = st1\<lparr>rlog := lg, elem_var := el,
          reference_list := reference_list st1 @ map (\<lambda>t. AttrRec key (PStr t)) array\<rparr>"
      by blast
    from elem_loop_not_found[OF loop a assms(3,4)] have
      "''%'' \<in> set array" "ObjectNotFound (class_name (H a)) mRID \<in> set lg"
      by simp_all
    with st2 sub show ?thesis by auto
  qed
  have scalar_case: "AttrRec key (PStr ''%'') \<in> set (reference_list out)"
    if mem: "(key, PObj a) \<in> set attr_dict"
  proof -
    from resolve_loop_member[OF assms(1)[unfolded get_reference_uuid_def] mem]
    obtain st1 st2 where
      step: "resolve_attr H res mRID (key, PObj a) st1 = Inr st2" and
      sub: "set (reference_list st2) \<subseteq> set (reference_list out)"
      by blast
    from resolve_attr_object[OF assms(2) step] obtain t ws where
      "object_uuid H res a = Inr t"
      "st2 = st1\<lparr>rlog := rlog st1 @ ws,
          reference_list := reference_list st1 @ [AttrRec key (PStr t)]\<rparr>"
      by blast
    with assms(3,4) sub show ?thesis by (auto simp: object_uuid_def)
  qed
  from assms(5) list_case scalar_case show ?thesis by blast
qed

lemma unresolved_example:
  "get_reference_uuid example_objects
     [(''Terminal.SvVoltage'', PList [PObj 1, PObj 7])] [(''T1'', 1), (''T2'', 2)] ''N1''
   = Inr \<lparr>reference_list =
            [AttrRec ''Terminal.SvVoltage'' (PStr ''%T1''),
             AttrRec ''Terminal.SvVoltage'' (PStr ''%'')],
          rlog = [ObjectNotFound ''SvVoltage'' ''N1''], elem_var = Some (PObj 7)\<rparr>"
  by (simp add: get_reference_uuid_def resolve_attr_def emit_def py_in_def Let_def
      example_objects_def)

theorem unresolved_reference_kept_witness:
  "get_reference_uuid example_objects
     [(''Terminal.SvVoltage'', PList [PObj 1, PObj 7])] [(''T1'', 1), (''T2'', 2)] ''N1''
   = Inr \<lparr>reference_list =
            [AttrRec ''Terminal.SvVoltage'' (PStr ''%T1''),
             AttrRec ''Terminal.SvVoltage'' (PStr ''%'')],
          rlog = [ObjectNotFound ''SvVoltage'' ''N1''], elem_var = Some (PObj 7)\<rparr>
   \<and> mRID_attr (example_objects 7) = None
   \<and> search_mRID 7 [(''T1'', 1), (''T2'', 2)] = []
   \<and> AttrRec ''Terminal.SvVoltage'' (PStr ''%'') \<in>
       set [AttrRec ''Terminal.SvVoltage'' (PStr ''%T1''),
            AttrRec ''Terminal.SvVoltage'' (PStr ''%'')]
   \<and> ObjectNotFound (class_name (example_objects 7)) ''N1'' \<in>
       set [ObjectNotFound ''SvVoltage'' ''N1'']"
  using unresolved_reference_kept[OF unresolved_example, of "''Terminal.SvVoltage''" 7]
    unresolved_example
  by (simp add: example_objects_def)

text \<open>
  Claim C3 as it is stated fails: the object at address 7 has no \<open>mRID\<close> and is
  not in the registry, and the record with the empty token is returned.
\<close>

theorem unresolved_reference_counterexample:
  "mRID_attr (example_objects 7) = None
   \<and> search_mRID 7 [(''T1'', 1), (''T2'', 2)] = []
   \<and> get_reference_uuid example_objects
        [(''Terminal.SvVoltage'', PList [PObj 7])] [(''T1'', 1), (''T2'', 2)] ''N1''
      = Inr \<lparr>reference_list = [AttrRec ''Terminal.SvVoltage'' (PStr ''%'')],
             rlog = [ObjectNotFound ''SvVoltage'' ''N1''], elem_var = Some (PObj 7)\<rparr>"
  by (simp add: get_reference_uuid_def resolve_attr_def emit_def py_in_def Let_def
      example_objects_def)

text \<open>The list loop goes on after an element it cannot resolve.\<close>

lemma elem_loop_unresolved_continues:
  assumes "mRID_attr (H a) = None" and "search_mRID a res = []"
  shows "elem_loop H res mRID (PObj a # es) (array, lg, el) =
         elem_loop H res mRID es
           (array @ [''%''], lg @ [ObjectNotFound (class_name (H a)) mRID], Some (PObj a))"
  using assms by simp

text \<open>
  In the branch of a single model object the warning reads the loop variable of the list
  branch: the call raises when no list element was visited before, and names the class
  of the last visited element otherwise.
\<close>

lemma unresolved_single_reference_raises:
  "get_reference_uuid example_objects
     [(''SvVoltage.TopologicalNode'', PObj 7)] [(''T1'', 1), (''T2'', 2)] ''N1''
   = Inl UnboundLocalError"
  by (simp add: get_reference_uuid_def resolve_attr_def Let_def example_objects_def)

lemma unresolved_single_reference_names_elem:
  "get_reference_uuid example_objects
     [(''Terminal.sequenceNumbers'', PList [PInt 3]), (''SvVoltage.TopologicalNode'', PObj 7)]
     [(''T1'', 1), (''T2'', 2)] ''N1''
   = Inr \<lparr>reference_list = [AttrRec ''SvVoltage.TopologicalNode'' (PStr ''%'')],
          rlog = [NotSubclass ''N1'', ObjectNotFound ''int'' ''N1''],
          elem_var = Some (PInt 3)\<rparr>"
  by (simp add: get_reference_uuid_def resolve_attr_def emit_def py_in_def Let_def
      example_objects_def)

section \<open>Properties of the sorting to profiles\<close>

subsection \<open>The rank lists\<close>

lemma sorted_from_refl [simp]: "sorted_from L L"
  by (simp add: sorted_from_def)

lemma sort_sort: "sort (sort xs) = sort (xs :: int list)"
  by (rule sorted_sort_id) simp

lemma sorted_from_sort:
  assumes "sorted_from L L'"
  shows "sorted_from L (L'(a := sort (L' a)))"
proof -
  have "sort (L' a) = sort (L a)"
    using assms[unfolded sorted_from_def, rule_format, of a] by (auto simp: sort_sort)
  with assms show ?thesis by (auto simp: sorted_from_def)
qed

lemma sorted_from_set: "sorted_from L L' \<Longrightarrow> set (L' a) = set (L a)"
  unfolding sorted_from_def by (metis set_sort)

lemma listed_cong: "set xs = set ys \<Longrightarrow> listed p xs = listed p ys"
  by (simp add: listed_def list_ex_iff)

lemma log_event_lists [simp]: "lists (log_event ev eff) = lists eff"
  by (simp add: log_event_def)

lemma sort_in_place_lists [simp]:
  "lists (sort_in_place a eff) = (lists eff)(a := sort (lists eff a))"
  by (simp add: sort_in_place_def)

lemma profile_name_not_empty [simp]: "profile_name m \<noteq> []"
  by (cases m) simp_all

lemma scan_profiles_listed:
  "scan_profiles ranks active = Inr p \<Longrightarrow> p \<noteq> Name [] \<Longrightarrow> p \<in> set active \<and> listed p ranks"
proof (induction ranks)
  case Nil
  then show ?case by simp
next
  case (Cons r rest)
  show ?case
  proof (cases "cgmesProfile_of r")
    case (Inl err)
    with Cons.prems show ?thesis by simp
  next
    case (Inr m)
    show ?thesis
    proof (cases "Name (profile_name m) \<in> set active")
      case True
      with Inr Cons.prems show ?thesis by (auto simp: listed_def)
    next
      case False
      with Inr Cons.prems have "scan_profiles rest active = Inr p" by simp
      from Cons.IH[OF this Cons.prems(2)] show ?thesis by (auto simp: listed_def)
    qed
  qed
qed

lemma class_read_in_lists:
  "class_read_in active kn rip ppl eff = (eff', r) \<Longrightarrow> lists eff' = lists eff"
  by (auto simp: class_read_in_def split: option.splits if_splits)

lemma class_default_sorted:
  assumes "class_default active kn ppl eff = (eff', r)" "sorted_from L (lists eff)"
  shows "sorted_from L (lists eff')"
proof (cases "map_of ppl kn")
  case None
  with assms show ?thesis by (auto simp: class_default_def)
next
  case (Some d)
  show ?thesis
  proof (cases "map_of d ''class''")
    case None
    with Some assms show ?thesis by (auto simp: class_default_def)
  next
    case (Some a)
    with \<open>map_of ppl kn = Some d\<close> assms(1) have "lists eff' = (lists eff)(a := sort (lists eff a))"
      by (auto simp: class_default_def Let_def split: sum.splits if_splits)
    with sorted_from_sort[OF assms(2)] show ?thesis by simp
  qed
qed

text \<open>The three ways the profile of an attribute is found (lines 211 to 243).\<close>

lemma attribute_profile_cases:
  assumes "attribute_profile active kn rip ppl cls nm eff = (eff', res)"
  shows "(\<exists>p. map_of rip nm = Some p \<and> p \<in> set active \<and> res = Inr (Some p) \<and>
              lists eff' = lists eff)
       \<or> ((map_of ppl cls = None \<or> (\<exists>d. map_of ppl cls = Some d \<and> map_of d nm = None)) \<and>
           res = Inr (Some (Name [])) \<and> lists eff' = lists eff)
       \<or> (\<exists>d a. map_of ppl cls = Some d \<and> map_of d nm = Some a \<and>
              lists eff' = (lists eff)(a := sort (lists eff a)) \<and>
              (case scan_profiles (sort (lists eff a)) active of
                 Inl err \<Rightarrow> res = Inl err
               | Inr p \<Rightarrow> res = (if p = Name [] then Inr None else Inr (Some p))))"
  using assms
  by (auto simp: attribute_profile_def Let_def split: option.splits if_splits sum.splits)

lemma attribute_profile_sorted:
  assumes "attribute_profile active kn rip ppl cls nm eff = (eff', res)"
    and "sorted_from L (lists eff)"
  shows "sorted_from L (lists eff')"
  using attribute_profile_cases[OF assms(1)] assms(2) sorted_from_sort[OF assms(2)]
  by auto

lemma attribute_profile_placed:
  assumes "attribute_profile active kn rip ppl cls nm eff = (eff', Inr (Some p))"
    and "sorted_from L (lists eff)"
    and "map_of ppl cls = Some d" and "map_of d nm = Some a"
  shows "p \<in> set active \<and> (map_of rip nm = Some p \<or> listed p (L a))"
proof -
  from attribute_profile_cases[OF assms(1)] assms(3,4) consider
    (read_in) "map_of rip nm = Some p" "p \<in> set active"
    | (scan) "scan_profiles (sort (lists eff a)) active = Inr p" "p \<noteq> Name []"
    by (auto split: sum.splits if_splits)
  then show ?thesis
  proof cases
    case read_in
    then show ?thesis by simp
  next
    case scan
    from scan_profiles_listed[OF scan] have "p \<in> set active" "listed p (sort (lists eff a))"
      by simp_all
    moreover have "set (sort (lists eff a)) = set (L a)"
      using sorted_from_set[OF assms(2), of a] by simp
    ultimately show ?thesis using listed_cong by blast
  qed
qed

subsection \<open>Where the records of a class go\<close>

lemma dict_all_Nil [simp]: "dict_all Q []"
  by (simp add: dict_all_def)

lemma dict_all_Cons:
  "dict_all Q ((k, vs) # d) = ((\<forall>v \<in> set vs. Q k v) \<and> dict_all Q d)"
  by (simp add: dict_all_def)

lemma dict_all_append:
  "dict_all Q d \<Longrightarrow> Q k v \<Longrightarrow> dict_all Q (dict_append k v d)"
proof (induction d)
  case Nil
  then show ?case by (simp add: dict_all_def)
next
  case (Cons x d)
  obtain k' vs where x: "x = (k', vs)" by (cases x)
  with Cons show ?case by (cases "k = k'") (auto simp: dict_all_Cons)
qed

text \<open>What one pass of the attribute loop does to its two accumulators.\<close>

lemma sort_attribute_cases:
  assumes "sort_attribute active kn rip ppl csp r eff acc = (eff', Inr acc')"
  shows "(acc' = acc \<and>
          (lists eff' = lists eff \<or>
           (\<exists>cls nm. \<exists>res. attribute_profile active kn rip ppl cls nm eff = (eff', res))))
       \<or> (\<exists>attr_name v cls nm rest p.
            r = AttrRec attr_name v \<and> split_dot attr_name = cls # nm # rest \<and>
            nm \<noteq> ''mRID'' \<and>
            attribute_profile active kn rip ppl cls nm eff = (eff', Inr (Some p)) \<and>
            acc' = (if p = csp then (fst acc @ [r], snd acc)
                    else (fst acc, dict_append p r (snd acc))))"
proof (cases r)
  case (MetaRec k v)
  with assms show ?thesis by (simp add: sort_attribute_def)
next
  case (AttrRec attr_name v)
  show ?thesis
  proof (cases "split_dot attr_name")
    case Nil
    with AttrRec assms show ?thesis by (simp add: sort_attribute_def)
  next
    case (Cons cls tl)
    show ?thesis
    proof (cases tl)
      case Nil
      with Cons AttrRec assms show ?thesis by (simp add: sort_attribute_def)
    next
      case (Cons nm rest)
      show ?thesis
      proof (cases "nm = ''mRID''")
        case True
        with Cons \<open>split_dot attr_name = cls # tl\<close> AttrRec assms show ?thesis
          by (simp add: sort_attribute_def)
      next
        case False
        obtain eff1 res where ap: "attribute_profile active kn rip ppl cls nm eff = (eff1, res)"
          by (cases "attribute_profile active kn rip ppl cls nm eff")
        with False Cons \<open>split_dot attr_name = cls # tl\<close> AttrRec assms show ?thesis
          by (auto simp: sort_attribute_def split: sum.splits option.splits if_splits)
      qed
    qed
  qed
qed

lemma sort_attribute_sorted:
  assumes "sort_attribute active kn rip ppl csp r eff acc = (eff', res)"
    and "sorted_from L (lists eff)"
  shows "sorted_from L (lists eff')"
proof (cases r)
  case (MetaRec k v)
  with assms show ?thesis by (simp add: sort_attribute_def)
next
  case (AttrRec attr_name v)
  show ?thesis
  proof (cases "split_dot attr_name")
    case Nil
    with AttrRec assms show ?thesis by (simp add: sort_attribute_def)
  next
    case (Cons cls tl)
    show ?thesis
    proof (cases tl)
      case Nil
      with Cons AttrRec assms show ?thesis by (simp add: sort_attribute_def)
    next
      case (Cons nm rest)
      show ?thesis
      proof (cases "nm = ''mRID''")
        case True
        with Cons \<open>split_dot attr_name = cls # tl\<close> AttrRec assms show ?thesis
          by (simp add: sort_attribute_def)
      next
        case False
        obtain eff1 res1 where
          ap: "attribute_profile active kn rip ppl cls nm eff = (eff1, res1)"
          by (cases "attribute_profile active kn rip ppl cls nm eff")
        with False Cons \<open>split_dot attr_name = cls # tl\<close> AttrRec assms(1) have "eff' = eff1"
          by (auto simp: sort_attribute_def split: sum.splits option.splits if_splits)
        with attribute_profile_sorted[OF ap assms(2)] show ?thesis by simp
      qed
    qed
  qed
qed

lemma sort_attribute_placed:
  assumes "sort_attribute active kn rip ppl csp r eff acc = (eff', Inr acc')"
    and "sorted_from L (lists eff)" and "r \<in> A"
    and "\<forall>x \<in> set (fst acc). x \<in> A \<and> placed_ok active rip ppl L x csp"
    and "dict_all (\<lambda>p x. x \<in> A \<and> placed_ok active rip ppl L x p) (snd acc)"
  shows "(\<forall>x \<in> set (fst acc'). x \<in> A \<and> placed_ok active rip ppl L x csp) \<and>
         dict_all (\<lambda>p x. x \<in> A \<and> placed_ok active rip ppl L x p) (snd acc')"
proof -
  from sort_attribute_cases[OF assms(1)] consider
    (same) "acc' = acc"
    | (placed) attr_name v cls nm rest p where
        "r = AttrRec attr_name v" "split_dot attr_name = cls # nm # rest" "nm \<noteq> ''mRID''"
        "attribute_profile active kn rip ppl cls nm eff = (eff', Inr (Some p))"
        "acc' = (if p = csp then (fst acc @ [r], snd acc)
                 else (fst acc, dict_append p r (snd acc)))"
    by blast
  then show ?thesis
  proof cases
    case same
    with assms(4,5) show ?thesis by simp
  next
    case placed
    have "placed_ok active rip ppl L r p"
      unfolding placed_ok_def
      using placed(1-3) attribute_profile_placed[OF placed(4) assms(2)] by auto
    with placed(5) assms(3,4,5) show ?thesis
      by (auto intro: dict_all_append)
  qed
qed

lemma attributes_loop_sorted:
  "attributes_loop active kn rip ppl csp rs eff acc = (eff', res) \<Longrightarrow>
   sorted_from L (lists eff) \<Longrightarrow> sorted_from L (lists eff')"
proof (induction rs arbitrary: eff acc)
  case Nil
  then show ?case by simp
next
  case (Cons r rest)
  obtain eff1 res1 where
    step: "sort_attribute active kn rip ppl csp r eff acc = (eff1, res1)"
    by (cases "sort_attribute active kn rip ppl csp r eff acc")
  from sort_attribute_sorted[OF step Cons.prems(2)] have s1: "sorted_from L (lists eff1)" .
  show ?case
  proof (cases res1)
    case (Inl err)
    with step Cons.prems(1) s1 show ?thesis by simp
  next
    case (Inr acc1)
    with step Cons.prems(1) have
      "attributes_loop active kn rip ppl csp rest eff1 acc1 = (eff', res)" by simp
    from Cons.IH[OF this s1] show ?thesis .
  qed
qed

lemma attributes_loop_placed:
  "attributes_loop active kn rip ppl csp rs eff acc = (eff', Inr acc') \<Longrightarrow>
   sorted_from L (lists eff) \<Longrightarrow> set rs \<subseteq> A \<Longrightarrow>
   \<forall>x \<in> set (fst acc). x \<in> A \<and> placed_ok active rip ppl L x csp \<Longrightarrow>
   dict_all (\<lambda>p x. x \<in> A \<and> placed_ok active rip ppl L x p) (snd acc) \<Longrightarrow>
   (\<forall>x \<in> set (fst acc'). x \<in> A \<and> placed_ok active rip ppl L x csp) \<and>
   dict_all (\<lambda>p x. x \<in> A \<and> placed_ok active rip ppl L x p) (snd acc')"
proof (induction rs arbitrary: eff acc)
  case Nil
  then show ?case by simp
next
  case (Cons r rest)
  obtain eff1 res1 where
    step: "sort_attribute active kn rip ppl csp r eff acc = (eff1, res1)"
    by (cases "sort_attribute active kn rip ppl csp r eff acc")
  with Cons.prems(1) obtain acc1 where
    res1: "res1 = Inr acc1" and
    rest: "attributes_loop active kn rip ppl csp rest eff1 acc1 = (eff', Inr acc')"
    by (cases res1) auto
  from sort_attribute_sorted[OF step Cons.prems(2)] have s1: "sorted_from L (lists eff1)" .
  from Cons.prems(3) have mem: "r \<in> A" "set rest \<subseteq> A" by simp_all
  from sort_attribute_placed[OF step[unfolded res1] Cons.prems(2) mem(1) Cons.prems(4,5)]
  have inv1: "\<forall>x \<in> set (fst acc1). x \<in> A \<and> placed_ok active rip ppl L x csp"
    "dict_all (\<lambda>p x. x \<in> A \<and> placed_ok active rip ppl L x p) (snd acc1)"
    by simp_all
  from Cons.IH[OF rest s1 mem(2) inv1] show ?case .
qed

subsection \<open>Where the classes go\<close>

lemma plan_all_Nil [simp]: "plan_all Q []"
  by (simp add: plan_all_def)

lemma plan_all_dict_all:
  "plan_all Q pl = dict_all (\<lambda>p c. \<forall>r \<in> set (attributes_of c). Q p c r) pl"
  by (simp add: plan_all_def dict_all_def)

lemma plan_all_append:
  "plan_all Q pl \<Longrightarrow> \<forall>r \<in> set (attributes_of c). Q p c r \<Longrightarrow> plan_all Q (dict_append p c pl)"
  unfolding plan_all_dict_all by (rule dict_all_append)

lemma plan_all_fold:
  "plan_all Q pl \<Longrightarrow>
   \<forall>(k, rs) \<in> set ad. \<forall>r \<in> set rs. Q k (mk rs) r \<Longrightarrow>
   \<forall>rs. attributes_of (mk rs) = rs \<Longrightarrow>
   plan_all Q (fold (\<lambda>(k, rs). dict_append k (mk rs)) ad pl)"
proof (induction ad arbitrary: pl)
  case Nil
  then show ?case by simp
next
  case (Cons x ad)
  obtain k rs where x: "x = (k, rs)" by (cases x)
  from Cons.prems(2) x have "\<forall>r \<in> set rs. Q k (mk rs) r" by simp
  with Cons.prems(3) have "\<forall>r \<in> set (attributes_of (mk rs)). Q k (mk rs) r" by simp
  from plan_all_append[OF Cons.prems(1) this]
  have "plan_all Q (dict_append k (mk rs) pl)" .
  from Cons.IH[OF this _ Cons.prems(3)] Cons.prems(2) x show ?case by simp
qed

text \<open>The steps of the loop body over the classes, when it does not raise.\<close>

lemma sort_klass_cases:
  assumes "sort_klass active klass eff plans = (eff', Inr plans')"
  shows "plans' = plans
       \<or> (\<exists>rip ppl eff2 csp same_package_list about_dict.
            read_metadata (attributes_of klass) = Inr (rip, ppl) \<and>
            attributes_loop active (name_of klass) rip ppl csp (attributes_of klass) eff2
              ([], []) = (eff', Inr (same_package_list, about_dict)) \<and>
            (\<forall>L. sorted_from L (lists eff) \<longrightarrow> sorted_from L (lists eff2)) \<and>
            plans' =
              (dict_append csp
                 \<lparr>name_of = name_of klass, mRID_of = mRID_of klass,
                  attributes_of = same_package_list\<rparr> (fst plans),
               fold (\<lambda>(about_key, about_attributes).
                       dict_append about_key
                         \<lparr>name_of = name_of klass, mRID_of = mRID_of klass,
                          attributes_of = about_attributes\<rparr>)
                 about_dict (snd plans)))"
proof -
  from assms obtain rip ppl where
    meta: "read_metadata (attributes_of klass) = Inr (rip, ppl)"
    by (cases "read_metadata (attributes_of klass)") (auto simp: sort_klass_def)
  obtain eff1 res1 where
    cr: "class_read_in active (name_of klass) rip ppl eff = (eff1, res1)"
    by (cases "class_read_in active (name_of klass) rip ppl eff")
  with assms meta obtain read_in where res1: "res1 = Inr read_in"
    by (cases res1) (auto simp: sort_klass_def)
  obtain eff2 res2 where
    cd: "(if read_in = Name [] then class_default active (name_of klass) ppl eff1
          else (eff1, Inr (Some read_in))) = (eff2, res2)"
    by (cases "if read_in = Name [] then class_default active (name_of klass) ppl eff1
          else (eff1, Inr (Some read_in))")
  have s2: "sorted_from L (lists eff2)" if "sorted_from L (lists eff)" for L
  proof -
    from class_read_in_lists[OF cr] that have "sorted_from L (lists eff1)" by simp
    with cd class_default_sorted show ?thesis by (auto split: if_splits)
  qed
  from assms meta cr res1 cd obtain copt where res2: "res2 = Inr copt"
    by (cases res2) (auto simp: sort_klass_def)
  show ?thesis
  proof (cases copt)
    case None
    with assms meta cr res1 cd res2 show ?thesis by (auto simp: sort_klass_def)
  next
    case (Some csp)
    obtain eff3 res3 where
      al: "attributes_loop active (name_of klass) rip ppl csp (attributes_of klass) eff2
             ([], []) = (eff3, res3)"
      by (cases "attributes_loop active (name_of klass) rip ppl csp (attributes_of klass) eff2
             ([], [])")
    with Some assms meta cr res1 cd res2 obtain same_package_list about_dict where
      "res3 = Inr (same_package_list, about_dict)" "eff' = eff3"
      "plans' =
         (dict_append csp
            \<lparr>name_of = name_of klass, mRID_of = mRID_of klass,
             attributes_of = same_package_list\<rparr> (fst plans),
          fold (\<lambda>(about_key, about_attributes).
                  dict_append about_key
                    \<lparr>name_of = name_of klass, mRID_of = mRID_of klass,
                     attributes_of = about_attributes\<rparr>)
            about_dict (snd plans))"
      by (cases res3) (auto simp: sort_klass_def)
    with al meta s2 show ?thesis by blast
  qed
qed

lemma sort_klass_sorted:
  assumes "sort_klass active klass eff plans = (eff', res)"
    and "sorted_from L (lists eff)"
  shows "sorted_from L (lists eff')"
proof (cases "read_metadata (attributes_of klass)")
  case (Inl err)
  with assms show ?thesis by (simp add: sort_klass_def)
next
  case (Inr m)
  then obtain rip ppl where meta: "read_metadata (attributes_of klass) = Inr (rip, ppl)"
    by (cases m) simp
  obtain eff1 res1 where
    cr: "class_read_in active (name_of klass) rip ppl eff = (eff1, res1)"
    by (cases "class_read_in active (name_of klass) rip ppl eff")
  from class_read_in_lists[OF cr] assms(2) have s1: "sorted_from L (lists eff1)" by simp
  show ?thesis
  proof (cases res1)
    case (Inl err)
    with assms(1) meta cr s1 show ?thesis by (simp add: sort_klass_def)
  next
    case (Inr read_in)
    obtain eff2 res2 where
      cd: "(if read_in = Name [] then class_default active (name_of klass) ppl eff1
            else (eff1, Inr (Some read_in))) = (eff2, res2)"
      by (cases "if read_in = Name [] then class_default active (name_of klass) ppl eff1
            else (eff1, Inr (Some read_in))")
    with s1 class_default_sorted have s2: "sorted_from L (lists eff2)"
      by (auto split: if_splits)
    show ?thesis
    proof (cases res2)
      case (Inl err)
      with assms(1) meta cr Inr cd s2 show ?thesis by (simp add: sort_klass_def)
    next
      case r2: (Inr copt)
      show ?thesis
      proof (cases copt)
        case None
        with assms(1) meta cr Inr cd r2 s2 show ?thesis by (simp add: sort_klass_def)
      next
        case (Some csp)
        obtain eff3 res3 where
          al: "attributes_loop active (name_of klass) rip ppl csp (attributes_of klass) eff2
                 ([], []) = (eff3, res3)"
          by (cases "attributes_loop active (name_of klass) rip ppl csp (attributes_of klass)
                 eff2 ([], [])")
        with Some assms(1) meta cr Inr cd r2 have "eff' = eff3"
          by (cases res3) (auto simp: sort_klass_def)
        with attributes_loop_sorted[OF al s2] show ?thesis by simp
      qed
    qed
  qed
qed

lemma sort_klass_placed:
  assumes "sort_klass active klass eff plans = (eff', Inr plans')"
    and "sorted_from L (lists eff)" and "klass \<in> K"
    and "plan_all (from_class active L K) (fst plans)"
    and "plan_all (from_class active L K) (snd plans)"
  shows "plan_all (from_class active L K) (fst plans') \<and>
         plan_all (from_class active L K) (snd plans')"
proof -
  from sort_klass_cases[OF assms(1)] consider
    (skip) "plans' = plans"
    | (filed) rip ppl eff2 csp same_package_list about_dict where
        "read_metadata (attributes_of klass) = Inr (rip, ppl)"
        "attributes_loop active (name_of klass) rip ppl csp (attributes_of klass) eff2
           ([], []) = (eff', Inr (same_package_list, about_dict))"
        "\<forall>L. sorted_from L (lists eff) \<longrightarrow> sorted_from L (lists eff2)"
        "plans' =
           (dict_append csp
              \<lparr>name_of = name_of klass, mRID_of = mRID_of klass,
               attributes_of = same_package_list\<rparr> (fst plans),
            fold (\<lambda>(about_key, about_attributes).
                    dict_append about_key
                      \<lparr>name_of = name_of klass, mRID_of = mRID_of klass,
                       attributes_of = about_attributes\<rparr>)
              about_dict (snd plans))"
    by blast
  then show ?thesis
  proof cases
    case skip
    with assms(4,5) show ?thesis by simp
  next
    case filed
    from filed(3) assms(2) have s2: "sorted_from L (lists eff2)" by simp
    from attributes_loop_placed[OF filed(2) s2, of "set (attributes_of klass)"]
    have same: "\<forall>x \<in> set same_package_list.
          x \<in> set (attributes_of klass) \<and> placed_ok active rip ppl L x csp"
      and about: "dict_all (\<lambda>p x. x \<in> set (attributes_of klass) \<and>
          placed_ok active rip ppl L x p) about_dict"
      by simp_all
    have fc: "from_class active L K p
        \<lparr>name_of = name_of klass, mRID_of = mRID_of klass, attributes_of = rs\<rparr> x"
      if "x \<in> set (attributes_of klass)" "placed_ok active rip ppl L x p" for p rs x
      unfolding from_class_def using that assms(3) filed(1) by auto
    have "plan_all (from_class active L K) (fst plans')"
      unfolding filed(4) fst_conv
      by (rule plan_all_append[OF assms(4)]) (use same fc in auto)
    moreover have "plan_all (from_class active L K) (snd plans')"
      unfolding filed(4) snd_conv
      by (rule plan_all_fold[OF assms(5)]) (use about fc in \<open>auto simp: dict_all_def\<close>)
    ultimately show ?thesis ..
  qed
qed

lemma klass_loop_sorted:
  "klass_loop active ks eff plans = (eff', res) \<Longrightarrow>
   sorted_from L (lists eff) \<Longrightarrow> sorted_from L (lists eff')"
proof (induction ks arbitrary: eff plans)
  case Nil
  then show ?case by simp
next
  case (Cons klass rest)
  obtain eff1 res1 where step: "sort_klass active klass eff plans = (eff1, res1)"
    by (cases "sort_klass active klass eff plans")
  from sort_klass_sorted[OF step Cons.prems(2)] have s1: "sorted_from L (lists eff1)" .
  show ?case
  proof (cases res1)
    case (Inl err)
    with step Cons.prems(1) s1 show ?thesis by simp
  next
    case (Inr plans1)
    with step Cons.prems(1) have "klass_loop active rest eff1 plans1 = (eff', res)" by simp
    from Cons.IH[OF this s1] show ?thesis .
  qed
qed

lemma klass_loop_placed:
  "klass_loop active ks eff plans = (eff', Inr plans') \<Longrightarrow>
   sorted_from L (lists eff) \<Longrightarrow> set ks \<subseteq> K \<Longrightarrow>
   plan_all (from_class active L K) (fst plans) \<Longrightarrow>
   plan_all (from_class active L K) (snd plans) \<Longrightarrow>
   plan_all (from_class active L K) (fst plans') \<and>
   plan_all (from_class active L K) (snd plans')"
proof (induction ks arbitrary: eff plans)
  case Nil
  then show ?case by simp
next
  case (Cons klass rest)
  obtain eff1 res1 where step: "sort_klass active klass eff plans = (eff1, res1)"
    by (cases "sort_klass active klass eff plans")
  with Cons.prems(1) obtain plans1 where
    res1: "res1 = Inr plans1" and
    rest: "klass_loop active rest eff1 plans1 = (eff', Inr plans')"
    by (cases res1) auto
  from sort_klass_sorted[OF step Cons.prems(2)] have s1: "sorted_from L (lists eff1)" .
  from Cons.prems(3) have mem: "klass \<in> K" "set rest \<subseteq> K" by simp_all
  from sort_klass_placed[OF step[unfolded res1] Cons.prems(2) mem(1) Cons.prems(4,5)]
  have "plan_all (from_class active L K) (fst plans1)"
    "plan_all (from_class active L K) (snd plans1)"
    by simp_all
  from Cons.IH[OF rest s1 mem(2) this] show ?case .
qed

lemma sort_classes_to_profile_placed:
  assumes "sort_classes_to_profile class_attributes_list active eff =
             (eff', Inr (export_dict, export_about_dict))"
  shows "plan_all (from_class active (lists eff) (set class_attributes_list)) export_dict"
    and "plan_all (from_class active (lists eff) (set class_attributes_list)) export_about_dict"
  using klass_loop_placed[OF assms[unfolded sort_classes_to_profile_def],
      of "lists eff" "set class_attributes_list"]
  by simp_all

lemma sort_classes_to_profile_sorted:
  "sort_classes_to_profile class_attributes_list active eff = (eff', res) \<Longrightarrow>
   sorted_from (lists eff) (lists eff')"
  unfolding sort_classes_to_profile_def
  by (erule klass_loop_sorted) simp

subsection \<open>The example, evaluated\<close>

lemmas sort_defs =
  sort_classes_to_profile_def sort_klass_def read_metadata_def class_read_in_def
  class_default_def attribute_profile_def sort_attribute_def sort_in_place_def log_event_def
  cgmesProfile_of_def Let_def

lemma example_sorted:
  "sort_classes_to_profile [example_class] example_active example_effects =
     (\<lparr>lists = example_lists(10 := [0, 1]), logs = []\<rparr>,
      Inr ([(Name ''EQ'', [example_owned])],
           [(Name ''SSH'', [example_about_SSH]), (Name ''SV'', [example_about_SV])]))"
  by (simp add: sort_defs example_class_def example_active_def example_effects_def
      example_lists_def example_possible_def example_owned_def example_about_SSH_def
      example_about_SV_def fun_upd_twist)

lemma example_read_class_sorted:
  "sort_classes_to_profile [example_read_class] example_active example_effects =
     (\<lparr>lists = example_lists(10 := [0, 1]),
       logs = [ClassNotPossible ''ACLineSegment'' (Name ''SSH'')]\<rparr>,
      Inr ([(Name ''EQ'', [example_owned])], []))"
  by (simp add: sort_defs example_read_class_def example_active_def example_effects_def
      example_lists_def example_possible_def example_owned_def)

lemma example_unlisted_sorted:
  "sort_classes_to_profile [example_unlisted_class] [Name ''EQ''] example_effects =
     (\<lparr>lists = example_lists, logs = [ClassNoProfile ''Foo'']\<rparr>,
      Inr ([(Name [], [\<lparr>name_of = ''Foo'', mRID_of = ''F1'', attributes_of = []\<rparr>])],
           [(Name ''EQ'', [\<lparr>name_of = ''Foo'', mRID_of = ''F1'',
                            attributes_of = [AttrRec ''Foo.x'' (PInt 1)]\<rparr>])]))"
  by (simp add: sort_defs example_unlisted_class_def example_effects_def)

lemma example_inactive_sorted:
  "sort_classes_to_profile [example_class] [Name ''SV''] example_effects =
     (\<lparr>lists = example_lists(10 := [0, 1]), logs = [ClassAllInactive ''ACLineSegment'']\<rparr>,
      Inr ([], []))"
  by (simp add: sort_defs example_class_def example_effects_def example_lists_def
      example_possible_def)

lemma example_resolved:
  "get_class_attributes_with_references example_model example_registry example_registry =
     Inr ([example_class], [])"
  by (simp add: example_registry_def example_model_def example_class_def
      get_reference_uuid_def resolve_attr_def emit_def py_in_def Let_def)

subsection \<open>The profile of an attribute and its allowed profiles\<close>

text \<open>
  Claim C1, as amended. Every attribute record of the export plan or the about plan
  comes from a class of the input and has a name with a class part and a name part.
  When possibleProfileList has a rank list for that class and name, the profile the
  record stands under is active, and it is the entry of readInProfile for the name (used
  whenever it is active, whether or not the list holds its rank) or a profile whose rank
  is in the list.
\<close>

theorem attribute_profile_legality:
  assumes "sort_classes_to_profile class_attributes_list activeProfileList eff =
             (eff', Inr (export_dict, export_about_dict))"
    and "(p, cs) \<in> set export_dict \<union> set export_about_dict"
    and "c \<in> set cs" and "r \<in> set (attributes_of c)"
  shows "\<exists>klass \<in> set class_attributes_list.
         \<exists>readInProfile possibleProfileList attr_name v attribute_class attribute_name rest.
           name_of klass = name_of c \<and> mRID_of klass = mRID_of c \<and>
           r \<in> set (attributes_of klass) \<and>
           read_metadata (attributes_of klass) = Inr (readInProfile, possibleProfileList) \<and>
           r = AttrRec attr_name v \<and>
           split_dot attr_name = attribute_class # attribute_name # rest \<and>
           (\<forall>d a. map_of possibleProfileList attribute_class = Some d \<longrightarrow>
                  map_of d attribute_name = Some a \<longrightarrow>
                  p \<in> set activeProfileList \<and>
                  (map_of readInProfile attribute_name = Some p \<or> listed p (lists eff a)))"
proof -
  from sort_classes_to_profile_placed[OF assms(1)] assms(2,3,4)
  have "from_class activeProfileList (lists eff) (set class_attributes_list) p c r"
    by (auto simp: plan_all_def)
  then show ?thesis
    unfolding from_class_def placed_ok_def by blast
qed

theorem attribute_profile_legality_witness:
  "sort_classes_to_profile [example_class] example_active example_effects =
     (\<lparr>lists = example_lists(10 := [0, 1]), logs = []\<rparr>,
      Inr ([(Name ''EQ'', [example_owned])],
           [(Name ''SSH'', [example_about_SSH]), (Name ''SV'', [example_about_SV])]))
   \<and> (\<exists>klass \<in> set [example_class].
         \<exists>readInProfile possibleProfileList attr_name v attribute_class attribute_name rest.
           name_of klass = name_of example_about_SSH \<and>
           mRID_of klass = mRID_of example_about_SSH \<and>
           AttrRec ''IdentifiedObject.name'' (PStr ''line'') \<in> set (attributes_of klass) \<and>
           read_metadata (attributes_of klass) = Inr (readInProfile, possibleProfileList) \<and>
           AttrRec ''IdentifiedObject.name'' (PStr ''line'') = AttrRec attr_name v \<and>
           split_dot attr_name = attribute_class # attribute_name # rest \<and>
           (\<forall>d a. map_of possibleProfileList attribute_class = Some d \<longrightarrow>
                  map_of d attribute_name = Some a \<longrightarrow>
                  Name ''SSH'' \<in> set example_active \<and>
                  (map_of readInProfile attribute_name = Some (Name ''SSH'') \<or>
                   listed (Name ''SSH'') (lists example_effects a))))"
proof (rule conjI[OF example_sorted])
  show "\<exists>klass \<in> set [example_class].
         \<exists>readInProfile possibleProfileList attr_name v attribute_class attribute_name rest.
           name_of klass = name_of example_about_SSH \<and>
           mRID_of klass = mRID_of example_about_SSH \<and>
           AttrRec ''IdentifiedObject.name'' (PStr ''line'') \<in> set (attributes_of klass) \<and>
           read_metadata (attributes_of klass) = Inr (readInProfile, possibleProfileList) \<and>
           AttrRec ''IdentifiedObject.name'' (PStr ''line'') = AttrRec attr_name v \<and>
           split_dot attr_name = attribute_class # attribute_name # rest \<and>
           (\<forall>d a. map_of possibleProfileList attribute_class = Some d \<longrightarrow>
                  map_of d attribute_name = Some a \<longrightarrow>
                  Name ''SSH'' \<in> set example_active \<and>
                  (map_of readInProfile attribute_name = Some (Name ''SSH'') \<or>
                   listed (Name ''SSH'') (lists example_effects a)))"
    by (rule attribute_profile_legality[OF example_sorted,
          of "Name ''SSH''" "[example_about_SSH]" example_about_SSH])
       (simp_all add: example_about_SSH_def)
qed

text \<open>
  Claim C1 as it is stated fails: the resistance of the example was read from the
  state-variables profile, which is active, and is filed under it, although the rank
  list of the attribute holds the equipment profile only.
\<close>

theorem attribute_profile_counterexample:
  "snd (sort_classes_to_profile [example_class] example_active example_effects) =
     Inr ([(Name ''EQ'', [example_owned])],
          [(Name ''SSH'', [example_about_SSH]), (Name ''SV'', [example_about_SV])])
   \<and> AttrRec ''ACLineSegment.r'' (PInt 5) \<in> set (attributes_of example_about_SV)
   \<and> map_of [(''class'', 10), (''r'', 11 :: addr)] ''r'' = Some 11
   \<and> \<not> listed (Name ''SV'') (example_lists 11)"
  by (simp add: example_sorted example_about_SV_def example_lists_def listed_def
      cgmesProfile_of_def)

subsection \<open>The identifier attribute\<close>

text \<open>
  Claim C9. No record of the export plan or of the about plan of any profile has the
  attribute name \<open>mRID\<close>: the name of each record has a class part and a name
  part, and the name part is not \<open>mRID\<close>.
\<close>

theorem mRID_not_exported:
  assumes "sort_classes_to_profile class_attributes_list activeProfileList eff =
             (eff', Inr (export_dict, export_about_dict))"
    and "(p, cs) \<in> set export_dict \<union> set export_about_dict"
    and "c \<in> set cs" and "r \<in> set (attributes_of c)"
  shows "\<exists>attr_name v attribute_class attribute_name rest.
           r = AttrRec attr_name v \<and>
           split_dot attr_name = attribute_class # attribute_name # rest \<and>
           attribute_name \<noteq> ''mRID''"
proof -
  from sort_classes_to_profile_placed[OF assms(1)] assms(2,3,4)
  have "from_class activeProfileList (lists eff) (set class_attributes_list) p c r"
    by (auto simp: plan_all_def)
  then show ?thesis
    unfolding from_class_def placed_ok_def by blast
qed

theorem mRID_not_exported_witness:
  "sort_classes_to_profile [example_class] example_active example_effects =
     (\<lparr>lists = example_lists(10 := [0, 1]), logs = []\<rparr>,
      Inr ([(Name ''EQ'', [example_owned])],
           [(Name ''SSH'', [example_about_SSH]), (Name ''SV'', [example_about_SV])]))
   \<and> AttrRec ''IdentifiedObject.mRID'' (PStr ''L1'') \<in> set (attributes_of example_class)
   \<and> (\<exists>attr_name v attribute_class attribute_name rest.
         AttrRec ''ACLineSegment.r'' (PInt 5) = AttrRec attr_name v \<and>
         split_dot attr_name = attribute_class # attribute_name # rest \<and>
         attribute_name \<noteq> ''mRID'')"
proof (intro conjI)
  show "\<exists>attr_name v attribute_class attribute_name rest.
         AttrRec ''ACLineSegment.r'' (PInt 5) = AttrRec attr_name v \<and>
         split_dot attr_name = attribute_class # attribute_name # rest \<and>
         attribute_name \<noteq> ''mRID''"
    by (rule mRID_not_exported[OF example_sorted,
          of "Name ''SV''" "[example_about_SV]" example_about_SV])
       (simp_all add: example_about_SV_def)
qed (rule example_sorted, simp add: example_class_def)

subsection \<open>Classes without a profile\<close>

text \<open>
  A class with a rank list none of whose profiles is active is dropped with a warning:
\<close>

lemma class_all_inactive_dropped:
  "snd (sort_classes_to_profile [example_class] [Name ''SV''] example_effects) = Inr ([], [])
   \<and> logs (fst (sort_classes_to_profile [example_class] [Name ''SV''] example_effects)) =
       [ClassAllInactive ''ACLineSegment'']"
  by (simp add: example_inactive_sorted)

text \<open>
  Claim C2: the code departs from it. A class that has no entry in possibleProfileList
  at all is warned about and then filed all the same, unlike the class above: the
  instance stands in the export plan under the empty string as its profile, and its
  attribute read from the equipment profile stands in the about plan.
\<close>

theorem class_without_entry_not_dropped:
  "map_of [] (name_of example_unlisted_class) = (None :: (string \<times> addr) list option)
   \<and> snd (sort_classes_to_profile [example_unlisted_class] [Name ''EQ''] example_effects) =
       Inr ([(Name [], [\<lparr>name_of = ''Foo'', mRID_of = ''F1'', attributes_of = []\<rparr>])],
            [(Name ''EQ'', [\<lparr>name_of = ''Foo'', mRID_of = ''F1'',
                             attributes_of = [AttrRec ''Foo.x'' (PInt 1)]\<rparr>])])
   \<and> logs (fst (sort_classes_to_profile [example_unlisted_class] [Name ''EQ'']
        example_effects)) = [ClassNoProfile ''Foo'']"
  by (simp add: example_unlisted_sorted)

subsection \<open>The profile a class was read from\<close>

text \<open>
  The profile a class was read from is a short code, the rank lists hold ranks, and
  line 169 looks for the one among the others: a short code is never found, so the read
  profile of a class is never used.
\<close>

lemma class_read_in_short_code:
  assumes "class_read_in activeProfileList klass_name readInProfile possibleProfileList eff =
             (eff', Inr p)"
    and "map_of readInProfile ''class'' = Some (Name short_code)"
  shows "p = Name []"
  using assms
  by (auto simp: class_read_in_def split: option.splits if_splits)

text \<open>
  Claim C4: the code departs from it. The class of the example was read from the
  steady-state-hypothesis profile, which is active and whose rank 1 is in the rank list
  of the class, so the first step of the rule applies. The class is exported with the
  equipment profile all the same, and the log says its profile is not possible for the
  class.
\<close>

theorem class_read_in_ignored:
  "map_of [(''class'', Name ''SSH'')] ''class'' = Some (Name ''SSH'')
   \<and> Name ''SSH'' \<in> set example_active
   \<and> listed (Name ''SSH'') (example_lists 10)
   \<and> sort_classes_to_profile [example_read_class] example_active example_effects =
       (\<lparr>lists = example_lists(10 := [0, 1]),
         logs = [ClassNotPossible ''ACLineSegment'' (Name ''SSH'')]\<rparr>,
        Inr ([(Name ''EQ'', [example_owned])], []))"
  using example_read_class_sorted
  by (simp add: example_active_def example_lists_def listed_def cgmesProfile_of_def)

subsection \<open>What the export writes\<close>

text \<open>The rank lists after the resolver and the sorting.\<close>

lemma cim_export_sorted:
  "sorted_from (lists eff)
     (lists (final (cim_export H res namespaces_dict file_name activeProfileList cwd created
        fs eff)))"
proof (cases "get_class_attributes_with_references H res res")
  case (Inl err)
  then show ?thesis by (simp add: cim_export_def)
next
  case (Inr r)
  obtain class_attributes_list lg where r: "r = (class_attributes_list, lg)" by (cases r)
  obtain eff' res' where
    run: "sort_classes_to_profile class_attributes_list activeProfileList
            (eff\<lparr>logs := logs eff @ lg\<rparr>) = (eff', res')"
    by (cases "sort_classes_to_profile class_attributes_list activeProfileList
            (eff\<lparr>logs := logs eff @ lg\<rparr>)")
  from sort_classes_to_profile_sorted[OF run] have "sorted_from (lists eff) (lists eff')"
    by simp
  with Inr r run show ?thesis
    by (cases res') (auto simp: cim_export_def Let_def split: prod.splits)
qed

text \<open>
  Claim C8, as amended. The export writes to state that is reachable from the registry
  in one way only: it sorts rank lists of possibleProfileList in place. After the call,
  also when it raises, every rank list is as it was before or is the ascending sort of
  what it was, so it holds the same ranks. (The objects and the registry are arguments
  that no function of the model returns changed.)
\<close>

theorem rank_lists_only_sorted:
  "(lists (final (cim_export H res namespaces_dict file_name activeProfileList cwd created
      fs eff)) a = lists eff a
    \<or> lists (final (cim_export H res namespaces_dict file_name activeProfileList cwd created
      fs eff)) a = sort (lists eff a))
   \<and> mset (lists (final (cim_export H res namespaces_dict file_name activeProfileList cwd
      created fs eff)) a) = mset (lists eff a)"
  using cim_export_sorted[of eff H res namespaces_dict file_name activeProfileList cwd created fs,
      unfolded sorted_from_def, rule_format, of a]
  by auto

subsection \<open>The order of the profiles\<close>

lemma export_profile_step:
  "rendered (export_profile cwd file_name created ns ex ab item st) = rendered st
   \<or> (\<exists>call. rendered (export_profile cwd file_name created ns ex ab item st) =
                rendered st @ [call] \<and>
              full_path call = path_join cwd (file_name @ ''_'' @ fst item @ ''.xml''))"
  by (auto simp: export_profile_def Let_def)

lemma fold_export_profile_subseq:
  "\<exists>ys. map full_path (rendered (fold (export_profile cwd file_name created ns ex ab) items st))
           = map full_path (rendered st) @ ys \<and>
        subseq ys (map (\<lambda>item. path_join cwd (file_name @ ''_'' @ fst item @ ''.xml'')) items)"
proof (induction items arbitrary: st)
  case Nil
  then show ?case by simp
next
  case (Cons item items)
  let ?st1 = "export_profile cwd file_name created ns ex ab item st"
  let ?g = "\<lambda>item. path_join cwd (file_name @ ''_'' @ fst item @ ''.xml'')"
  from Cons.IH[of ?st1] obtain ys where
    ys: "map full_path (rendered (fold (export_profile cwd file_name created ns ex ab) items
           ?st1)) = map full_path (rendered ?st1) @ ys"
    and sub: "subseq ys (map ?g items)"
    by blast
  from export_profile_step[of cwd file_name created ns ex ab item st] show ?case
  proof
    assume "rendered ?st1 = rendered st"
    with ys sub show ?thesis
      by (intro exI[of _ ys]) (simp add: list_emb_Cons)
  next
    assume "\<exists>call. rendered ?st1 = rendered st @ [call] \<and> full_path call = ?g item"
    then obtain call where "rendered ?st1 = rendered st @ [call]" "full_path call = ?g item"
      by blast
    with ys sub show ?thesis
      by (intro exI[of _ "?g item # ys"]) simp
  qed
qed

text \<open>
  Claim C7, as amended. The export hands the profiles to the renderer in the order in
  which the table \<open>short_profile_name\<close> is written, which is the alphabetical order
  of the full names and not the order of the priority ranks: the files of the renderer's
  calls, in the order of the calls, are a subsequence of the files of DiagramLayout,
  Dynamics, Equipment, GeographicalLocation, StateVariables, SteadyStateHypothesis and
  Topology.
\<close>

theorem profiles_in_table_order:
  "subseq
     (map full_path (calls (cim_export H res namespaces_dict file_name activeProfileList cwd
        created fs eff)))
     (map (\<lambda>profile_name. path_join cwd (file_name @ ''_'' @ profile_name @ ''.xml''))
        [''DiagramLayout'', ''Dynamics'', ''Equipment'', ''GeographicalLocation'',
         ''StateVariables'', ''SteadyStateHypothesis'', ''Topology''])
   \<and> map fst short_profile_name =
       [''DiagramLayout'', ''Dynamics'', ''Equipment'', ''GeographicalLocation'',
        ''StateVariables'', ''SteadyStateHypothesis'', ''Topology'']"
proof
  show "map fst short_profile_name =
       [''DiagramLayout'', ''Dynamics'', ''Equipment'', ''GeographicalLocation'',
        ''StateVariables'', ''SteadyStateHypothesis'', ''Topology'']"
    by (simp add: short_profile_name_def)
  have table: "map (\<lambda>item. path_join cwd (file_name @ ''_'' @ fst item @ ''.xml''))
        short_profile_name =
      map (\<lambda>profile_name. path_join cwd (file_name @ ''_'' @ profile_name @ ''.xml''))
        [''DiagramLayout'', ''Dynamics'', ''Equipment'', ''GeographicalLocation'',
         ''StateVariables'', ''SteadyStateHypothesis'', ''Topology'']"
    by (simp add: short_profile_name_def)
  have loop: "subseq
      (map full_path (rendered (export_profiles cwd file_name created ns ex ab
         \<lparr>existing = fs, rendered = [], export_log = []\<rparr>)))
      (map (\<lambda>item. path_join cwd (file_name @ ''_'' @ fst item @ ''.xml''))
         short_profile_name)" for ns ex ab
    using fold_export_profile_subseq[of cwd file_name created ns ex ab short_profile_name
        "\<lparr>existing = fs, rendered = [], export_log = []\<rparr>"]
    by (auto simp: export_profiles_def)
  show "subseq
     (map full_path (calls (cim_export H res namespaces_dict file_name activeProfileList cwd
        created fs eff)))
     (map (\<lambda>profile_name. path_join cwd (file_name @ ''_'' @ profile_name @ ''.xml''))
        [''DiagramLayout'', ''Dynamics'', ''Equipment'', ''GeographicalLocation'',
         ''StateVariables'', ''SteadyStateHypothesis'', ''Topology''])"
  proof (cases "get_class_attributes_with_references H res res")
    case (Inl err)
    then show ?thesis by (simp add: cim_export_def)
  next
    case (Inr r)
    obtain class_attributes_list lg where r: "r = (class_attributes_list, lg)" by (cases r)
    obtain eff' res' where
      run: "sort_classes_to_profile class_attributes_list activeProfileList
              (eff\<lparr>logs := logs eff @ lg\<rparr>) = (eff', res')"
      by (cases "sort_classes_to_profile class_attributes_list activeProfileList
              (eff\<lparr>logs := logs eff @ lg\<rparr>)")
    show ?thesis
    proof (cases res')
      case (Inl err)
      with Inr r run show ?thesis by (simp add: cim_export_def)
    next
      case plans: (Inr pl)
      obtain ex ab where pl: "pl = (ex, ab)" by (cases pl)
      from Inr r run plans pl have
        "calls (cim_export H res namespaces_dict file_name activeProfileList cwd created fs
           eff) =
         rendered (export_profiles cwd file_name created
           (create_namespaces_list namespaces_dict) ex ab
           \<lparr>existing = fs, rendered = [], export_log = []\<rparr>)"
        by (simp add: cim_export_def Let_def)
      with loop[of "create_namespaces_list namespaces_dict" ex ab] table show ?thesis
        by simp
    qed
  qed
qed

subsection \<open>The export of the example\<close>

text \<open>What is handed to the renderer, and the rank lists after the call.\<close>

lemma example_rendered:
  "map full_path (rendered (export_profiles ''/out'' ''grid'' ''04/11/2026 10:00:00''
      (create_namespaces_list [(''cim'', ''http://iec.ch/TC57/2013/CIM-schema-cim16#'')])
      [(Name ''EQ'', [example_owned])]
      [(Name ''SSH'', [example_about_SSH]), (Name ''SV'', [example_about_SV])]
      \<lparr>existing = [], rendered = [], export_log = []\<rparr>)) =
     [''/out/grid_Equipment.xml'', ''/out/grid_StateVariables.xml'',
      ''/out/grid_SteadyStateHypothesis.xml'']"
  by (simp add: export_profiles_def export_profile_def short_profile_name_def path_join_def
      Let_def)

lemma example_cim_export:
  "cim_export example_model example_registry
        [(''cim'', ''http://iec.ch/TC57/2013/CIM-schema-cim16#'')] ''grid'' example_active
        ''/out'' ''04/11/2026 10:00:00'' [] example_effects =
   (let st = export_profiles ''/out'' ''grid'' ''04/11/2026 10:00:00''
      (create_namespaces_list [(''cim'', ''http://iec.ch/TC57/2013/CIM-schema-cim16#'')])
      [(Name ''EQ'', [example_owned])]
      [(Name ''SSH'', [example_about_SSH]), (Name ''SV'', [example_about_SV])]
      \<lparr>existing = [], rendered = [], export_log = []\<rparr>
    in \<lparr>final = \<lparr>lists = example_lists(10 := [0, 1]), logs = [] @ export_log st\<rparr>,
        files = existing st, calls = rendered st, raised = None\<rparr>)"
proof -
  have eff: "example_effects\<lparr>logs := logs example_effects @ []\<rparr> = example_effects"
    by simp
  show ?thesis
    unfolding cim_export_def example_resolved sum.case prod.case eff example_sorted
    by (simp add: Let_def)
qed

lemma example_exported:
  "map full_path
     (calls (cim_export example_model example_registry
        [(''cim'', ''http://iec.ch/TC57/2013/CIM-schema-cim16#'')] ''grid'' example_active
        ''/out'' ''04/11/2026 10:00:00'' [] example_effects)) =
     [''/out/grid_Equipment.xml'', ''/out/grid_StateVariables.xml'',
      ''/out/grid_SteadyStateHypothesis.xml'']
   \<and> lists (final (cim_export example_model example_registry
        [(''cim'', ''http://iec.ch/TC57/2013/CIM-schema-cim16#'')] ''grid'' example_active
        ''/out'' ''04/11/2026 10:00:00'' [] example_effects)) = example_lists(10 := [0, 1])
   \<and> raised (cim_export example_model example_registry
        [(''cim'', ''http://iec.ch/TC57/2013/CIM-schema-cim16#'')] ''grid'' example_active
        ''/out'' ''04/11/2026 10:00:00'' [] example_effects) = None"
  unfolding example_cim_export Let_def
  by (simp add: example_rendered)

lemma example_effects_lists: "lists example_effects = example_lists"
  by (simp add: example_effects_def)

theorem rank_lists_only_sorted_witness:
  "lists (final (cim_export example_model example_registry
        [(''cim'', ''http://iec.ch/TC57/2013/CIM-schema-cim16#'')] ''grid'' example_active
        ''/out'' ''04/11/2026 10:00:00'' [] example_effects)) 10 = sort (example_lists 10)
   \<and> mset (lists (final (cim_export example_model example_registry
        [(''cim'', ''http://iec.ch/TC57/2013/CIM-schema-cim16#'')] ''grid'' example_active
        ''/out'' ''04/11/2026 10:00:00'' [] example_effects)) 10) = mset (example_lists 10)"
proof
  have "lists (final (cim_export example_model example_registry
        [(''cim'', ''http://iec.ch/TC57/2013/CIM-schema-cim16#'')] ''grid'' example_active
        ''/out'' ''04/11/2026 10:00:00'' [] example_effects)) 10 = [0, 1]"
    using example_exported by simp
  moreover have "sort (example_lists 10) = [0, 1]"
    by (simp add: example_lists_def)
  ultimately show "lists (final (cim_export example_model example_registry
        [(''cim'', ''http://iec.ch/TC57/2013/CIM-schema-cim16#'')] ''grid'' example_active
        ''/out'' ''04/11/2026 10:00:00'' [] example_effects)) 10 = sort (example_lists 10)"
    by simp
  from rank_lists_only_sorted[of example_model example_registry
      "[(''cim'', ''http://iec.ch/TC57/2013/CIM-schema-cim16#'')]" "''grid''" example_active
      "''/out''" "''04/11/2026 10:00:00''" "[]" example_effects 10]
  show "mset (lists (final (cim_export example_model example_registry
        [(''cim'', ''http://iec.ch/TC57/2013/CIM-schema-cim16#'')] ''grid'' example_active
        ''/out'' ''04/11/2026 10:00:00'' [] example_effects)) 10) = mset (example_lists 10)"
    unfolding example_effects_lists by (rule conjunct2)
qed

text \<open>
  Claim C8 as it is stated fails: the line segment \<open>L1\<close> of the registry holds,
  in the possibleProfileList of its class, the rank list at address 10. It is
  \<open>[1, 0]\<close> before the export and \<open>[0, 1]\<close> after it.
\<close>

theorem rank_list_counterexample:
  "map_of example_registry ''L1'' = Some 3
   \<and> map_of (attributes_dict (example_model 3)) ''possibleProfileList'' =
       Some (PPossible [(''IdentifiedObject'', [(''mRID'', 12), (''name'', 12)]),
                        (''ACLineSegment'', [(''class'', 10), (''r'', 11)])])
   \<and> lists example_effects 10 = [1, 0]
   \<and> lists (final (cim_export example_model example_registry
        [(''cim'', ''http://iec.ch/TC57/2013/CIM-schema-cim16#'')] ''grid'' example_active
        ''/out'' ''04/11/2026 10:00:00'' [] example_effects)) 10 = [0, 1]"
proof (intro conjI)
  show "lists (final (cim_export example_model example_registry
        [(''cim'', ''http://iec.ch/TC57/2013/CIM-schema-cim16#'')] ''grid'' example_active
        ''/out'' ''04/11/2026 10:00:00'' [] example_effects)) 10 = [0, 1]"
    using example_exported by simp
qed (simp_all add: example_registry_def example_model_def example_possible_def
      example_effects_lists example_lists_def)

theorem profiles_in_table_order_witness:
  "subseq
     [''/out/grid_Equipment.xml'', ''/out/grid_StateVariables.xml'',
      ''/out/grid_SteadyStateHypothesis.xml'']
     (map (\<lambda>profile_name. path_join ''/out'' (''grid'' @ ''_'' @ profile_name @ ''.xml''))
        [''DiagramLayout'', ''Dynamics'', ''Equipment'', ''GeographicalLocation'',
         ''StateVariables'', ''SteadyStateHypothesis'', ''Topology''])"
proof -
  have paths: "map full_path (calls (cim_export example_model example_registry
        [(''cim'', ''http://iec.ch/TC57/2013/CIM-schema-cim16#'')] ''grid'' example_active
        ''/out'' ''04/11/2026 10:00:00'' [] example_effects)) =
     [''/out/grid_Equipment.xml'', ''/out/grid_StateVariables.xml'',
      ''/out/grid_SteadyStateHypothesis.xml'']"
    using example_exported by (rule conjunct1)
  from profiles_in_table_order[of example_model example_registry
      "[(''cim'', ''http://iec.ch/TC57/2013/CIM-schema-cim16#'')]" "''grid''" example_active
      "''/out''" "''04/11/2026 10:00:00''" "[]" example_effects]
  show ?thesis unfolding paths by (rule conjunct1)
qed

text \<open>
  Claim C7 as it is stated fails: the example has content for the equipment, the
  steady-state-hypothesis and the state-variables profile, and the renderer gets the
  state variables (rank 3) before the steady-state hypothesis (rank 1).
\<close>

theorem profile_order_counterexample:
  "map full_path (calls (cim_export example_model example_registry
        [(''cim'', ''http://iec.ch/TC57/2013/CIM-schema-cim16#'')] ''grid'' example_active
        ''/out'' ''04/11/2026 10:00:00'' [] example_effects)) =
     [''/out/grid_Equipment.xml'', ''/out/grid_StateVariables.xml'',
      ''/out/grid_SteadyStateHypothesis.xml'']
   \<and> profile_value SSH < profile_value SV"
  using example_exported by simp

end
